theory Spec2Isabelle
  imports Main "HOL-Library.Multiset" "HOL-Library.Product_Lexorder" "HOL-Library.List_Lexorder"
begin

section \<open>JavaScript values\<close>

text \<open>
  The values that flow through the server: request fields, the body of the lookup
  response, and the cells of a row object. Numbers are modelled by their integer values
  (with \<open>JNaN\<close> for the result of a failed numeric parse); fractional doubles do not
  occur on the paths verified here. Strings are lists of characters.
\<close>

datatype jsvalue =
    JUndefined
  | JNull
  | JBool bool
  | JNum int
  | JNaN
  | JStr string
  | JArr "jsvalue list"
  | JObj "(string \<times> jsvalue) list"

text \<open>Truthiness, as used by \<open>!x\<close>, \<open>x || y\<close> and \<open>x ? a : b\<close>.\<close>

fun truthy :: "jsvalue \<Rightarrow> bool" where
  "truthy JUndefined = False"
| "truthy JNull = False"
| "truthy (JBool b) = b"
| "truthy (JNum n) = (n \<noteq> 0)"
| "truthy JNaN = False"
| "truthy (JStr s) = (s \<noteq> [])"
| "truthy (JArr xs) = True"
| "truthy (JObj kvs) = True"

fun isString :: "jsvalue \<Rightarrow> bool" where
  "isString (JStr s) = True"
| "isString v = False"

definition isDigit :: "char \<Rightarrow> bool" where
  "isDigit c = (c \<in> set ''0123456789'')"

section \<open>cleanPhoneNumber\<close>

text \<open>
  \<^verbatim>\<open>if (Array.isArray(phone) && phone.length > 0) phone = phone[0];\<close>
\<close>

fun unwrapArray :: "jsvalue \<Rightarrow> jsvalue" where
  "unwrapArray (JArr (x # xs)) = x"
| "unwrapArray phone = phone"

text \<open>
  \<^verbatim>\<open>phone.replace(/[^\d+]/g, "")\<close>: every character outside the class of digits and
  \<open>+\<close> is deleted, wherever it stands.
\<close>

definition stripNonPhone :: "string \<Rightarrow> string" where
  "stripNonPhone s = filter (\<lambda>c. isDigit c \<or> c = CHR ''+'') s"

definition cleanPhoneNumber :: "jsvalue \<Rightarrow> string" where
  "cleanPhoneNumber phone =
     (case unwrapArray phone of
        JStr s \<Rightarrow> stripNonPhone s
      | _ \<Rightarrow> ''Error'')"

text \<open>
  The reference reading of the specification's sentence, used for comparison: an array
  is replaced by its first element (\<open>undefined\<close> for the empty array), a non-string
  gives \<open>Error\<close>, and in a string a \<open>+\<close> survives only in leading position.
\<close>

fun firstElement :: "jsvalue \<Rightarrow> jsvalue" where
  "firstElement (JArr []) = JUndefined"
| "firstElement (JArr (x # xs)) = x"
| "firstElement v = v"

fun stripLeadingPlus_spec :: "string \<Rightarrow> string" where
  "stripLeadingPlus_spec [] = []"
| "stripLeadingPlus_spec (c # cs) =
     (if isDigit c \<or> c = CHR ''+'' then [c] else []) @ filter isDigit cs"

fun cleanPhoneNumber_spec :: "jsvalue \<Rightarrow> string" where
  "cleanPhoneNumber_spec phone =
     (case firstElement phone of
        JStr s \<Rightarrow> stripLeadingPlus_spec s
      | _ \<Rightarrow> ''Error'')"

text \<open>The same reference with the word "leading" dropped: any \<open>+\<close> is kept.\<close>

fun cleanPhoneNumber_ref :: "jsvalue \<Rightarrow> string" where
  "cleanPhoneNumber_ref phone =
     (case firstElement phone of
        JStr s \<Rightarrow> filter (\<lambda>c. c \<in> set ''+0123456789'') s
      | _ \<Rightarrow> ''Error'')"

section \<open>Conversions and objects\<close>

text \<open>Decimal rendering of a number, as \<open>String(n)\<close> gives it for an integer.\<close>

fun showNat :: "nat \<Rightarrow> string" where
  "showNat n =
     (if n < 10 then [''0123456789'' ! n]
      else showNat (n div 10) @ [''0123456789'' ! (n mod 10)])"

declare showNat.simps [simp del]

definition showInt :: "int \<Rightarrow> string" where
  "showInt i = (if i < 0 then CHR ''-'' # showNat (nat (- i)) else showNat (nat i))"

fun intercalate :: "string \<Rightarrow> string list \<Rightarrow> string" where
  "intercalate sep [] = []"
| "intercalate sep [x] = x"
| "intercalate sep (x # y # ys) = x @ sep @ intercalate sep (y # ys)"

text \<open>
  \<open>String(v)\<close> and the template literal \<open>`${v}`\<close>. Inside \<open>Array.prototype.join\<close>
  the elements \<open>undefined\<close> and \<open>null\<close> render as the empty string.
\<close>

fun toStr :: "jsvalue \<Rightarrow> string" where
  "toStr JUndefined = ''undefined''"
| "toStr JNull = ''null''"
| "toStr (JBool b) = (if b then ''true'' else ''false'')"
| "toStr (JNum n) = showInt n"
| "toStr JNaN = ''NaN''"
| "toStr (JStr s) = s"
| "toStr (JArr xs) =
     intercalate '',''
       (map (\<lambda>x. if x = JUndefined \<or> x = JNull then [] else toStr x) xs)"
| "toStr (JObj kvs) = ''[object Object]''"

text \<open>
  A row is a JavaScript object: an association list in insertion order, with distinct
  keys. Reading a missing property gives \<open>undefined\<close>; writing an existing property
  keeps its position, writing a new one appends it.
\<close>

type_synonym row = "(string \<times> jsvalue) list"

definition objGet :: "row \<Rightarrow> string \<Rightarrow> jsvalue" where
  "objGet obj k = (case map_of obj k of None \<Rightarrow> JUndefined | Some v \<Rightarrow> v)"

fun objSet :: "string \<Rightarrow> jsvalue \<Rightarrow> row \<Rightarrow> row" where
  "objSet k v [] = [(k, v)]"
| "objSet k v ((k', v') # kvs) =
     (if k' = k then (k, v) # kvs else (k', v') # objSet k v kvs)"

definition objOmit :: "string \<Rightarrow> row \<Rightarrow> row" where
  "objOmit k obj = filter (\<lambda>kv. fst kv \<noteq> k) obj"

definition objKeys :: "row \<Rightarrow> string list" where
  "objKeys obj = map fst obj"

definition objValues :: "row \<Rightarrow> jsvalue list" where
  "objValues obj = map snd obj"

text \<open>
  Property access \<open>v.name\<close> on an arbitrary value: a \<open>TypeError\<close> on \<open>undefined\<close> and
  \<open>null\<close>, the property of an object, \<open>undefined\<close> on every other value (none of the
  names read by the server is a built-in property of a primitive or an array).
\<close>

fun getProp :: "jsvalue \<Rightarrow> string \<Rightarrow> string + jsvalue" where
  "getProp JUndefined k = Inl (''Cannot read properties of undefined (reading '' @ k @ '')'')"
| "getProp JNull k = Inl (''Cannot read properties of null (reading '' @ k @ '')'')"
| "getProp (JObj kvs) k = Inr (objGet kvs k)"
| "getProp v k = Inr JUndefined"


section \<open>The grouped limiter\<close>

text \<open>
  The table \<open>uploaded\<close> is given by the names of its columns and the list of its rows, in
  whatever order the query engine scans them. The limiter is the query
  \<^verbatim>\<open>SELECT * FROM (SELECT *, ROW_NUMBER() OVER (PARTITION BY company ORDER BY linkedin)
  as rn FROM uploaded) WHERE rn <= ${limit}\<close>.
  Column names are matched without regard to case. Rows with equal \<open>company\<close> form a
  partition (all \<open>NULL\<close>s together), every partition is ordered ascending by \<open>linkedin\<close>
  with \<open>NULL\<close> last and numbered from 1. Rows that tie on \<open>linkedin\<close> are numbered in
  scan order; since the scan order is arbitrary, this covers every numbering the engine
  may choose.
\<close>

fun sqlKey :: "jsvalue \<Rightarrow> nat \<times> int \<times> nat list" where
  "sqlKey (JStr s) = (0, 0, map of_char s)"
| "sqlKey (JNum n) = (0, n, [])"
| "sqlKey (JBool b) = (0, (if b then 1 else 0), [])"
| "sqlKey v = (1, 0, [])"

definition lowerCase :: "string \<Rightarrow> string" where
  "lowerCase s =
     map (\<lambda>c. case map_of (zip ''ABCDEFGHIJKLMNOPQRSTUVWXYZ'' ''abcdefghijklmnopqrstuvwxyz'') c of
                 Some l \<Rightarrow> l
               | None \<Rightarrow> c) s"

definition resolveColumn :: "string \<Rightarrow> string list \<Rightarrow> string option" where
  "resolveColumn name cols = find (\<lambda>c. lowerCase c = name) cols"

definition partitionKeys :: "string \<Rightarrow> row list \<Rightarrow> jsvalue list" where
  "partitionKeys company uploaded = remdups (map (\<lambda>r. objGet r company) uploaded)"

definition rowNumber :: "string \<Rightarrow> string \<Rightarrow> row list \<Rightarrow> jsvalue \<Rightarrow> (row \<times> nat) list" where
  "rowNumber company linkedin uploaded g =
     (let part = sort_key (\<lambda>r. sqlKey (objGet r linkedin))
                   (filter (\<lambda>r. objGet r company = g) uploaded)
      in zip part [1 ..< Suc (length part)])"

text \<open>
  The inner query has the columns of the table followed by the row number under the
  alias \<open>rn\<close>. When the table has a column of that name already, the engine renames the
  later one (\<open>rn:1\<close>, or the first of \<open>rn:1\<close>, \<open>rn:2\<close>, ... that is free), and the name
  \<open>rn\<close> in the outer \<open>WHERE\<close> denotes the column of the table, not the row number.
\<close>

fun freeAlias :: "string list \<Rightarrow> nat \<Rightarrow> nat \<Rightarrow> string" where
  "freeAlias taken 0 i = ''rn:'' @ showNat i"
| "freeAlias taken (Suc fuel) i =
     (if ''rn:'' @ showNat i \<in> set taken then freeAlias taken fuel (Suc i)
      else ''rn:'' @ showNat i)"

definition windowColumn :: "string list \<Rightarrow> string" where
  "windowColumn cols =
     (if ''rn'' \<in> set (map lowerCase cols)
      then freeAlias (map lowerCase cols) (length cols) 1
      else ''rn'')"

definition withRn :: "string \<Rightarrow> row \<times> nat \<Rightarrow> row" where
  "withRn alias p = objSet alias (JNum (int (snd p))) (fst p)"

text \<open>
  \<open>cell <= limit\<close> for a cell of the table's own \<open>rn\<close> column: a number is compared,
  \<open>NULL\<close> is never at most the limit, and a column of any other type makes the engine
  refuse the comparison with an integer.
\<close>

fun cellAtMost :: "jsvalue \<Rightarrow> int \<Rightarrow> bool option" where
  "cellAtMost (JNum n) limit = Some (n \<le> limit)"
| "cellAtMost JNull limit = Some False"
| "cellAtMost v limit = None"

text \<open>
  The result of the query, or \<open>None\<close> when the engine rejects it: a table without a
  \<open>company\<close> or \<open>linkedin\<close> column, or an own \<open>rn\<close> column that cannot be compared.
\<close>

definition limitedQuery :: "int \<Rightarrow> string list \<Rightarrow> row list \<Rightarrow> row list option" where
  "limitedQuery limit cols uploaded =
     (case (resolveColumn ''company'' cols, resolveColumn ''linkedin'' cols) of
        (Some company, Some linkedin) \<Rightarrow>
          (let numbered = concat (map (rowNumber company linkedin uploaded)
                                      (partitionKeys company uploaded))
           in case resolveColumn ''rn'' cols of
                None \<Rightarrow>
                  Some (map (withRn (windowColumn cols))
                            (filter (\<lambda>p. int (snd p) \<le> limit) numbered))
              | Some own \<Rightarrow>
                  if list_all (\<lambda>p. cellAtMost (objGet (fst p) own) limit \<noteq> None) numbered
                  then Some (map (withRn (windowColumn cols))
                                 (filter (\<lambda>p. cellAtMost (objGet (fst p) own) limit = Some True)
                                         numbered))
                  else None)
      | _ \<Rightarrow> None)"

section \<open>The enrichment loop\<close>

datatype log_entry = LogError string | LogWarn string | LogInfo string

text \<open>
  One call of \<open>axios.post\<close>: the promise is rejected (transport failure, time-out,
  non-2xx status) with an error whose message is given, or resolved with a response
  whose \<open>data\<close> is given. The lookup service is an oracle from the number of the call
  and the \<open>linkedinUrl\<close> sent to the outcome.
\<close>

datatype http_outcome = Rejected string | Resolved jsvalue

type_synonym lookup_service = "nat \<Rightarrow> jsvalue \<Rightarrow> http_outcome"

text \<open>
  The body of the loop up to the \<open>push\<close>: \<open>phone\<close> starts as \<open>Not Found\<close>; inside the
  \<open>try\<close>, \<open>response.data.phone\<close> is read (a \<open>TypeError\<close> when \<open>data\<close> is \<open>undefined\<close>
  or \<open>null\<close>) and \<open>cleanPhoneNumber(rawPhone || "Not Found")\<close> is assigned; the \<open>catch\<close>
  logs the message and leaves \<open>phone\<close> as it was.
\<close>

definition findPhone :: "http_outcome \<Rightarrow> row \<Rightarrow> string \<times> log_entry list" where
  "findPhone outcome row =
     (let phone = ''Not Found'';
          caught = (\<lambda>msg. (phone, [LogError (''Error for '' @ toStr (objGet row ''linkedin'') @ '': '' @ msg)]))
      in case outcome of
           Rejected msg \<Rightarrow> caught msg
         | Resolved data \<Rightarrow>
             (case getProp data ''phone'' of
                Inl msg \<Rightarrow> caught msg
              | Inr rawPhone \<Rightarrow>
                  (cleanPhoneNumber (if truthy rawPhone then rawPhone else JStr ''Not Found''), [])))"

fun enrichLoop ::
  "lookup_service \<Rightarrow> row list \<Rightarrow> nat \<Rightarrow> row list \<Rightarrow> log_entry list \<Rightarrow> row list \<times> log_entry list" where
  "enrichLoop api [] i results lg = (results, lg)"
| "enrichLoop api (row # rest) i results lg =
     (let found = findPhone (api i (objGet row ''linkedin'')) row
      in enrichLoop api rest (Suc i)
           (results @ [objSet ''phonenumber'' (JStr (fst found)) row]) (lg @ snd found))"

section \<open>Serialization\<close>

abbreviation DQ :: char where
  "DQ \<equiv> CHR 0x22"

abbreviation NL :: char where
  "NL \<equiv> CHR 0x0A"

text \<open>
  \<^verbatim>\<open>const { rn, ...rest } = row; return { ...rest, phonenumber: row.phonenumber ?
  `="${row.phonenumber}"` : "" };\<close>
\<close>

definition safeRow :: "row \<Rightarrow> row" where
  "safeRow row =
     (let rest = objOmit ''rn'' row
      in objSet ''phonenumber''
           (if truthy (objGet row ''phonenumber'')
            then JStr (''='' @ [DQ] @ toStr (objGet row ''phonenumber'') @ [DQ])
            else JStr [])
           rest)"

definition safeResults :: "row list \<Rightarrow> row list" where
  "safeResults results = map safeRow results"

text \<open>
  The formatter of the CSV library, for the options the server passes. A field is
  rendered as a string (nothing for \<open>undefined\<close> and \<open>null\<close>), NUL characters are dropped,
  a field containing the quote character is quoted with its quotes doubled, and any other
  field is quoted when it contains a delimiter or line break or when quoting of all
  columns is switched on (\<open>quoteColumns\<close>, which the header line inherits).
\<close>

fun escapeQuotes :: "string \<Rightarrow> string" where
  "escapeQuotes [] = []"
| "escapeQuotes (c # cs) = (if c = DQ then [DQ, DQ] else [c]) @ escapeQuotes cs"

definition quoteField :: "string \<Rightarrow> string" where
  "quoteField s = [DQ] @ s @ [DQ]"

definition formatField :: "bool \<Rightarrow> jsvalue \<Rightarrow> string" where
  "formatField quoteColumns field =
     (let preparedField =
            filter (\<lambda>c. c \<noteq> CHR 0x00)
              (if field = JUndefined \<or> field = JNull then [] else toStr field)
      in if DQ \<in> set preparedField then quoteField (escapeQuotes preparedField)
         else if list_ex (\<lambda>c. c = CHR '','' \<or> c = NL \<or> c = CHR 0x0D) preparedField \<or> quoteColumns
         then quoteField preparedField
         else preparedField)"

text \<open>
  With \<open>headers: true\<close> the columns are the keys of the first row; every row contributes
  its value for each of those keys. No row, no output.
\<close>

definition csvCells :: "bool \<Rightarrow> row list \<Rightarrow> string list list" where
  "csvCells quoteColumns rows =
     (case rows of
        [] \<Rightarrow> []
      | first # _ \<Rightarrow>
          (let headers = objKeys first
           in map (formatField quoteColumns \<circ> JStr) headers
              # map (\<lambda>r. map (\<lambda>h. formatField quoteColumns (objGet r h)) headers) rows))"

definition writeToStream :: "bool \<Rightarrow> row list \<Rightarrow> string" where
  "writeToStream quoteColumns rows =
     intercalate [NL] (map (intercalate '','') (csvCells quoteColumns rows))"


section \<open>Object storage and the server state\<close>

text \<open>
  A bucket is the list of its objects in the order in which the storage service lists
  them; an uploaded object with a new name is listed last. Creation times are
  milliseconds since the epoch, which is what \<open>new Date(created_at)\<close> subtracts.
\<close>

record storage_obj =
  obj_name :: string
  created_at :: int
  content :: string

datatype timer_action = RemoveObject string string | UnlinkFiles string string

datatype response =
    Redirect string
  | Send nat string
  | SendJson nat jsvalue
  | NoResponse

record world =
  hatch_exports :: "storage_obj list"
  leadexports :: "storage_obj list"
  poclevelexports :: "storage_obj list"
  console :: "log_entry list"
  timers :: "(nat \<times> timer_action) list"

text \<open>
  What the environment decides: whether the upload reports an error, whether the
  listing returns data, which removals report an error, the public URL prefix, the
  creation time the storage service stamps on a new object, and the \<open>CLEANUP_FILES\<close>
  flag. The storage client reports a failed removal in its result and does not throw.
\<close>

record storage_env =
  upload_error :: "string option"
  list_ok :: bool
  remove_fails :: "string \<Rightarrow> bool"
  public_base :: string
  stamp :: int
  cleanup_files :: bool

definition upsertObject :: "storage_obj \<Rightarrow> storage_obj list \<Rightarrow> storage_obj list" where
  "upsertObject obj bucket =
     (if obj_name obj \<in> set (map obj_name bucket)
      then map (\<lambda>f. if obj_name f = obj_name obj then obj else f) bucket
      else bucket @ [obj])"

definition listObjects :: "nat \<Rightarrow> storage_obj list \<Rightarrow> storage_obj list" where
  "listObjects limit bucket = take limit bucket"

definition removeObject :: "storage_env \<Rightarrow> string \<Rightarrow> storage_obj list \<Rightarrow> storage_obj list" where
  "removeObject env n bucket =
     (if remove_fails env n then bucket else filter (\<lambda>f. obj_name f \<noteq> n) bucket)"

text \<open>
  \<^verbatim>\<open>listData.sort((a, b) => new Date(b.created_at) - new Date(a.created_at)).slice(3)\<close>:
  a stable sort, newest first, without its first three elements.
\<close>

definition staleObjects :: "storage_obj list \<Rightarrow> storage_obj list" where
  "staleObjects listData = drop 3 (sort_key (\<lambda>f. - created_at f) listData)"

text \<open>
  \<open>exportCSVAndUpload\<close>, from the serialization to the response sent by the \<open>finish\<close>
  handler. \<open>now\<close> is \<open>Date.now()\<close>; the local staging file and the artifact are
  named from the same instant. The staging file is written and read back unchanged.
\<close>

definition exportCSVAndUpload ::
  "row list \<Rightarrow> storage_env \<Rightarrow> int \<Rightarrow> string \<Rightarrow> world \<Rightarrow> response \<times> world" where
  "exportCSVAndUpload results env now filePath w =
     (let fileBuffer = writeToStream True (safeResults results);
          fileName = ''hatch_result_'' @ showInt now @ ''.csv''
      in case upload_error env of
           Some msg \<Rightarrow>
             (Send 500 ''Failed to upload result.'',
              w\<lparr>console := console w @ [LogError (''Upload failed: '' @ msg)]\<rparr>)
         | None \<Rightarrow>
             (let uploaded = upsertObject
                    \<lparr>obj_name = fileName, created_at = stamp env, content = fileBuffer\<rparr>
                    (hatch_exports w);
                  publicUrl = public_base env @ fileName
              in if \<not> list_ok env
                 then (Send 500 ''Something went wrong.'',
                       w\<lparr>hatch_exports := uploaded,
                         console := console w @
                           [LogError ''Error in upload process: TypeError: Cannot read properties of null (reading sort)'']\<rparr>)
                 else
                   (let sorted = staleObjects (listObjects 100 uploaded);
                        pruned = foldl (\<lambda>b f. removeObject env (obj_name f) b) uploaded sorted;
                        cleanup = (if cleanup_files env
                                   then [(1000, UnlinkFiles filePath (''hatch_output_'' @ showInt now @ ''.csv''))]
                                   else [])
                    in (Redirect publicUrl,
                        w\<lparr>hatch_exports := pruned,
                          timers := timers w @ cleanup @
                            [(60000, RemoveObject ''hatch-exports'' fileName)]\<rparr>))))"

section \<open>The upload route\<close>

text \<open>
  \<open>parseInt\<close> with no radix: leading white space is skipped, an optional sign is read,
  a prefix \<open>0x\<close> or \<open>0X\<close> switches to base 16, and the longest run of digits of the base
  is the value; with no digit the result is \<open>NaN\<close>. The value is kept exact.
\<close>

definition isWhiteSpace :: "char \<Rightarrow> bool" where
  "isWhiteSpace c = (c \<in> set [CHR 0x09, CHR 0x0A, CHR 0x0B, CHR 0x0C, CHR 0x0D, CHR 0x20])"

definition digitValue :: "char \<Rightarrow> nat" where
  "digitValue c =
     (case map_of (zip ''0123456789abcdef'' [0 ..< 16] @ zip ''ABCDEF'' [10 ..< 16]) c of
        Some d \<Rightarrow> d
      | None \<Rightarrow> 16)"

definition parseInt :: "string \<Rightarrow> jsvalue" where
  "parseInt inputString =
     (let s = dropWhile isWhiteSpace inputString;
          negative = (take 1 s = ''-'');
          s1 = (if take 1 s = ''-'' \<or> take 1 s = ''+'' then drop 1 s else s);
          hex = (take 2 s1 = ''0x'' \<or> take 2 s1 = ''0X'');
          radix = (if hex then 16 else 10);
          s2 = (if hex then drop 2 s1 else s1);
          z = takeWhile (\<lambda>c. digitValue c < radix) s2;
          mathInt = foldl (\<lambda>a c. a * radix + digitValue c) 0 z
      in if z = [] then JNaN
         else JNum (if negative then - int mathInt else int mathInt))"

text \<open>
  The request after the multipart middleware: the \<open>limit\<close> field of the body and the
  uploaded file, if any. The file is given by its path and by the table that
  \<open>read_csv_auto\<close> makes of it. When the engine rejects the query, the rejection is
  raised inside the stream callback and no response is sent.
\<close>

record upload_file =
  file_path :: string
  columns :: "string list"
  uploaded :: "row list"

record upload_request =
  body_limit :: jsvalue
  req_file :: "upload_file option"

definition uploadRoute ::
  "storage_env \<Rightarrow> lookup_service \<Rightarrow> int \<Rightarrow> upload_request \<Rightarrow> world \<Rightarrow> response \<times> world" where
  "uploadRoute env api now req w =
     (let limit = parseInt (toStr (body_limit req))
      in if \<not> truthy limit \<or> req_file req = None
         then (Send 400 ''Invalid input.'', w)
         else
           (case (limit, req_file req) of
              (JNum n, Some f) \<Rightarrow>
                (case limitedQuery n (columns f) (uploaded f) of
                   None \<Rightarrow> (NoResponse, w)
                 | Some limited \<Rightarrow>
                     (let enriched = enrichLoop api limited 0 [] []
                      in exportCSVAndUpload (fst enriched) env now (file_path f)
                           (w\<lparr>console := console w @ snd enriched\<rparr>)))
            | _ \<Rightarrow> (NoResponse, w)))"


section \<open>The bulk exports\<close>

text \<open>
  The datastore answers \<open>from(table).select("*").eq("client_id", clientId).range(from, to)\<close>
  with a pair of \<open>data\<close> (possibly \<open>null\<close>) and \<open>error\<close> (possibly \<open>null\<close>). In general it
  is an oracle; \<open>tableStore\<close> is the datastore that holds a finite list of rows and
  answers a range request with the rows of the tenant at positions \<open>from\<close> to \<open>to\<close>.
\<close>

record query_result =
  data :: "row list option"
  error :: "string option"

type_synonym datastore = "string \<Rightarrow> jsvalue \<Rightarrow> nat \<Rightarrow> nat \<Rightarrow> query_result"

definition tableStore :: "(string \<Rightarrow> row list) \<Rightarrow> datastore" where
  "tableStore tables tbl clientId from to =
     \<lparr>data = Some (take (Suc to - from)
                    (drop from (filter (\<lambda>r. objGet r ''client_id'' = clientId) (tables tbl)))),
      error = None\<rparr>"

definition pageSize :: nat where
  "pageSize = 1000"

definition headerRow :: "row \<Rightarrow> string" where
  "headerRow r = intercalate '','' (objKeys r) @ [NL]"

text \<open>
  \<^verbatim>\<open>Object.values(row).map((val) => `"${String(val ?? "").replace(/"/g, '""')}"`)
  .join(",") + "\n"\<close>
\<close>

definition rowStr :: "row \<Rightarrow> string" where
  "rowStr r =
     intercalate '',''
       (map (\<lambda>val. [DQ] @ escapeQuotes (if val = JUndefined \<or> val = JNull then [] else toStr val) @ [DQ])
            (objValues r))
     @ [NL]"

text \<open>
  The \<open>while (true)\<close> loop of both exports, from the state \<open>page\<close>, \<open>csvParts\<close>,
  \<open>headersWritten\<close>. It ends by throwing (\<open>Inl\<close>) or by a \<open>break\<close> (\<open>Inr\<close> of the parts
  collected); a datastore that keeps returning full pages keeps it running, which is the
  value \<open>None\<close>.
\<close>

partial_function (option) pageLoop ::
  "(nat \<Rightarrow> nat \<Rightarrow> query_result) \<Rightarrow> string \<Rightarrow> nat \<Rightarrow> string list \<Rightarrow> bool
     \<Rightarrow> (string + string list) option" where
  "pageLoop fetch errPrefix page csvParts headersWritten =
     (case error (fetch (page * pageSize) (page * pageSize + pageSize - 1)) of
        Some msg \<Rightarrow> Some (Inl (errPrefix @ msg))
      | None \<Rightarrow>
          (case data (fetch (page * pageSize) (page * pageSize + pageSize - 1)) of
             None \<Rightarrow> Some (Inr csvParts)
           | Some [] \<Rightarrow> Some (Inr csvParts)
           | Some (first # others) \<Rightarrow>
               if length (first # others) < pageSize
               then Some (Inr ((if \<not> headersWritten then csvParts @ [headerRow first] else csvParts)
                               @ map rowStr (first # others)))
               else pageLoop fetch errPrefix (page + 1)
                      ((if \<not> headersWritten then csvParts @ [headerRow first] else csvParts)
                       @ map rowStr (first # others))
                      True))"

datatype export_outcome = Thrown string | ReturnedUndefined | Returned string string

text \<open>
  The rest of an export after the loop: upload without upsert, public URL, result.
  \<open>put\<close> stores the new bucket contents in the state.
\<close>

definition publishExport ::
  "storage_env \<Rightarrow> string \<Rightarrow> string \<Rightarrow> string \<Rightarrow> string list
     \<Rightarrow> storage_obj list \<Rightarrow> export_outcome \<times> storage_obj list \<times> log_entry list" where
  "publishExport env uploadPrefix urlMessage fileName csvParts bucket =
     (let buffer = concat csvParts
      in case upload_error env of
           Some msg \<Rightarrow> (Thrown (uploadPrefix @ msg), bucket, [])
         | None \<Rightarrow>
             (let publicUrl = public_base env @ fileName
              in if publicUrl = []
                 then (Thrown urlMessage,
                       bucket @ [\<lparr>obj_name = fileName, created_at = stamp env, content = buffer\<rparr>],
                       [LogInfo (''File uploaded: '' @ fileName)])
                 else (Returned fileName publicUrl,
                       bucket @ [\<lparr>obj_name = fileName, created_at = stamp env, content = buffer\<rparr>],
                       [LogInfo (''File uploaded: '' @ fileName),
                        LogInfo (''Download URL: '' @ publicUrl)])))"

definition exportLeads ::
  "datastore \<Rightarrow> storage_env \<Rightarrow> int \<Rightarrow> jsvalue \<Rightarrow> world \<Rightarrow> (export_outcome \<times> world) option" where
  "exportLeads store env now clientId w =
     (let fileName = ''Leads_'' @ toStr clientId @ ''_'' @ showInt now @ ''.csv''
      in case pageLoop (store ''Leads'' clientId) ''Error fetching leads: '' 0 [] False of
           None \<Rightarrow> None
         | Some (Inl msg) \<Rightarrow> Some (Thrown msg, w)
         | Some (Inr csvParts) \<Rightarrow>
             if length csvParts = 0
             then Some (ReturnedUndefined,
                        w\<lparr>console := console w @
                            [LogWarn (''No data found for client_id: '' @ toStr clientId)]\<rparr>)
             else
               (case publishExport env ''Upload failed: '' ''Could not get public URL''
                       fileName csvParts (leadexports w) of
                  (outcome, bucket, msgs) \<Rightarrow>
                    Some (outcome,
                          w\<lparr>leadexports := bucket,
                            console := console w @ LogInfo (''CSV ready: '' @ fileName) # msgs\<rparr>)))"

definition exportPocLevels ::
  "datastore \<Rightarrow> storage_env \<Rightarrow> int \<Rightarrow> jsvalue \<Rightarrow> world \<Rightarrow> (export_outcome \<times> world) option" where
  "exportPocLevels store env now clientId w =
     (let fileName = ''POC_Levels_'' @ toStr clientId @ ''_'' @ showInt now @ ''.csv''
      in case pageLoop (store ''POC-Data'' clientId) ''Error fetching POC levels: '' 0 [] False of
           None \<Rightarrow> None
         | Some (Inl msg) \<Rightarrow> Some (Thrown msg, w)
         | Some (Inr csvParts) \<Rightarrow>
             if length csvParts = 0
             then Some (Thrown (''No data found for client_id: '' @ toStr clientId), w)
             else
               (case publishExport env ''POC Upload failed: '' ''Could not get POC public URL''
                       fileName csvParts (poclevelexports w) of
                  (outcome, bucket, msgs) \<Rightarrow>
                    Some (outcome,
                          w\<lparr>poclevelexports := bucket,
                            console := console w @ LogInfo (''POC CSV ready: '' @ fileName) # msgs\<rparr>)))"

text \<open>
  The route handlers. The handler destructures the result of the export; destructuring
  \<open>undefined\<close> is a \<open>TypeError\<close>, which the \<open>catch\<close> turns into the 500 answer like any
  other failure of the export.
\<close>

definition routeAnswer ::
  "string \<Rightarrow> string \<Rightarrow> export_outcome \<Rightarrow> world \<Rightarrow> response \<times> world" where
  "routeAnswer bucketName failure outcome w =
     (case outcome of
        Returned fileName downloadUrl \<Rightarrow>
          (Redirect downloadUrl,
           w\<lparr>timers := timers w @ [(60000, RemoveObject bucketName fileName)]\<rparr>)
      | ReturnedUndefined \<Rightarrow>
          (SendJson 500 (JObj [(''error'', JStr failure)]),
           w\<lparr>console := console w @
               [LogError (failure @ '': TypeError: Cannot destructure property fileName of undefined'')]\<rparr>)
      | Thrown msg \<Rightarrow>
          (SendJson 500 (JObj [(''error'', JStr failure)]),
           w\<lparr>console := console w @ [LogError (failure @ '': Error: '' @ msg)]\<rparr>))"

definition exportLeadsRoute ::
  "datastore \<Rightarrow> storage_env \<Rightarrow> int \<Rightarrow> jsvalue \<Rightarrow> world \<Rightarrow> (response \<times> world) option" where
  "exportLeadsRoute store env now clientId w =
     (if \<not> truthy clientId
      then Some (SendJson 400 (JObj [(''error'', JStr ''Missing client_id'')]), w)
      else case exportLeads store env now clientId w of
             None \<Rightarrow> None
           | Some (outcome, w') \<Rightarrow> Some (routeAnswer ''leadexports'' ''Export failed'' outcome w'))"

definition exportPocLevelsRoute ::
  "datastore \<Rightarrow> storage_env \<Rightarrow> int \<Rightarrow> jsvalue \<Rightarrow> world \<Rightarrow> (response \<times> world) option" where
  "exportPocLevelsRoute store env now clientId w =
     (if \<not> truthy clientId
      then Some (SendJson 400 (JObj [(''error'', JStr ''Missing client_id'')]), w)
      else case exportPocLevels store env now clientId w of
             None \<Rightarrow> None
           | Some (outcome, w') \<Rightarrow>
               Some (routeAnswer ''poclevelexports'' ''POC Level export failed'' outcome w'))"



section \<open>Properties of cleanPhoneNumber\<close>

lemma stripNonPhone_chars: "set (stripNonPhone s) \<subseteq> set ''+0123456789''"
  by (auto simp: stripNonPhone_def isDigit_def)

lemma stripNonPhone_not_Error: "stripNonPhone s \<noteq> ''Error''"
proof
  assume "stripNonPhone s = ''Error''"
  then have "CHR ''E'' \<in> set (stripNonPhone s)" by simp
  with stripNonPhone_chars [of s] show False by auto
qed

lemma unwrapArray_firstElement:
  "isString (unwrapArray v) = isString (firstElement v)"
  "isString (unwrapArray v) \<Longrightarrow> unwrapArray v = firstElement v"
  by (induction v rule: firstElement.induct) simp_all

text \<open>
  C3, as stated: the cleaning function equals the reference in which only a leading
  \<open>+\<close> survives. It does not: the regular expression keeps every \<open>+\<close>, so for the
  input \<open>1+2\<close> the code returns \<open>1+2\<close> and the reference returns \<open>12\<close>.
\<close>

theorem cleanPhoneNumber_leading_plus_counterexample:
  "cleanPhoneNumber (JStr ''1+2'') = ''1+2'' \<and> cleanPhoneNumber_spec (JStr ''1+2'') = ''12''"
  by (simp add: cleanPhoneNumber_def stripNonPhone_def isDigit_def)

text \<open>
  C3, amended: the cleaning function equals the reference in which an array is replaced
  by its first element, a non-string gives \<open>Error\<close>, and every character that is
  neither a digit nor a \<open>+\<close> (in any position) is removed. The two examples of the
  specification hold: \<open>+1 (415) 555-0100\<close> becomes \<open>+14155550100\<close>, and a non-string
  payload (a number, an object, \<open>null\<close>) becomes \<open>Error\<close>.
\<close>

theorem cleanPhoneNumber_refines_reference:
  "cleanPhoneNumber v = cleanPhoneNumber_ref v
   \<and> cleanPhoneNumber (JStr ''+1 (415) 555-0100'') = ''+14155550100''
   \<and> cleanPhoneNumber (JNum 14155550100) = ''Error''
   \<and> cleanPhoneNumber (JObj [(''number'', JStr ''+1415'')]) = ''Error''
   \<and> cleanPhoneNumber JNull = ''Error''"
proof -
  have strip: "stripNonPhone s = filter (\<lambda>c. c \<in> set ''+0123456789'') s" for s
    unfolding stripNonPhone_def isDigit_def by (rule filter_cong) auto
  have "cleanPhoneNumber v = cleanPhoneNumber_ref v"
  proof (cases "isString (unwrapArray v)")
    case True
    then obtain s where s: "unwrapArray v = JStr s"
      by (cases "unwrapArray v") simp_all
    with True have "firstElement v = JStr s"
      using unwrapArray_firstElement(2) [of v] by simp
    with s show ?thesis
      by (simp add: cleanPhoneNumber_def strip)
  next
    case False
    then have "\<not> isString (firstElement v)"
      by (simp add: unwrapArray_firstElement(1))
    with False show ?thesis
      by (cases "unwrapArray v"; cases "firstElement v") (simp_all add: cleanPhoneNumber_def)
  qed
  moreover have "cleanPhoneNumber (JStr ''+1 (415) 555-0100'') = ''+14155550100''"
    by (simp add: cleanPhoneNumber_def stripNonPhone_def isDigit_def)
  ultimately show ?thesis
    by (simp add: cleanPhoneNumber_def)
qed

text \<open>
  C10: the cleaning function is a total function into strings. When the value left by
  the array unwrapping is a string, the result is made of digits and \<open>+\<close> only and is
  not the word \<open>Error\<close>; the result is \<open>Error\<close> exactly when that value is not a string.
\<close>

theorem cleanPhoneNumber_total_string:
  "(isString (unwrapArray v) \<longrightarrow>
      set (cleanPhoneNumber v) \<subseteq> set ''+0123456789'' \<and> cleanPhoneNumber v \<noteq> ''Error'')
   \<and> (cleanPhoneNumber v = ''Error'' \<longleftrightarrow> \<not> isString (unwrapArray v))"
proof (cases "unwrapArray v")
  case (JStr s)
  then have "cleanPhoneNumber v = stripNonPhone s"
    by (simp add: cleanPhoneNumber_def)
  with JStr stripNonPhone_chars [of s] stripNonPhone_not_Error [of s] show ?thesis
    by simp
qed (simp_all add: cleanPhoneNumber_def)

theorem cleanPhoneNumber_total_string_witness:
  "isString (unwrapArray (JArr [JStr ''(0) 12'', JNull]))
   \<and> cleanPhoneNumber (JArr [JStr ''(0) 12'', JNull]) = ''012''
   \<and> set ''012'' \<subseteq> set ''+0123456789''
   \<and> cleanPhoneNumber (JStr []) = []
   \<and> cleanPhoneNumber (JArr []) = ''Error''"
  using cleanPhoneNumber_total_string [of "JArr [JStr ''(0) 12'', JNull]"]
    cleanPhoneNumber_total_string [of "JStr []"]
    cleanPhoneNumber_total_string [of "JArr []"]
  by (simp add: cleanPhoneNumber_def stripNonPhone_def isDigit_def)

section \<open>Properties of row objects\<close>

lemma objGet_objSet: "objGet (objSet k v r) k' = (if k' = k then v else objGet r k')"
  by (induction r) (auto simp: objGet_def)

lemma map_fst_objSet:
  "map fst (objSet k v r) = (if k \<in> set (map fst r) then map fst r else map fst r @ [k])"
  by (induction r) force+

lemma objKeys_objSet: "set (objKeys (objSet k v r)) = insert k (set (objKeys r))"
  unfolding objKeys_def map_fst_objSet by auto


lemma objKeys_objOmit: "set (objKeys (objOmit k r)) = set (objKeys r) - {k}"
  by (auto simp: objKeys_def objOmit_def)

lemma intercalate_concat:
  "intercalate sep xs = (case xs of [] \<Rightarrow> [] | x # ys \<Rightarrow> x @ concat (map ((@) sep) ys))"
  by (induction sep xs rule: intercalate.induct) simp_all

section \<open>Properties of the enrichment loop\<close>

lemma enrichLoop_results:
  "fst (enrichLoop api rows i results lg) =
     results @ map (\<lambda>p. objSet ''phonenumber'' (JStr (fst (findPhone (api (fst p) (objGet (snd p) ''linkedin'')) (snd p)))) (snd p)) (zip [i ..< i + length rows] rows)"
proof (induction rows arbitrary: i results lg)
  case Nil
  show ?case by simp
next
  case (Cons row rest)
  have "[i ..< i + length (row # rest)] = i # [Suc i ..< Suc i + length rest]"
    by (subst upt_conv_Cons) simp_all
  then show ?case
    by (simp add: Cons.IH Let_def)
qed

lemma findPhone_Rejected: "fst (findPhone (Rejected msg) row) = ''Not Found''"
  by (simp add: findPhone_def)

text \<open>
  C1: the enrichment loop produces exactly one output row for each retained row, in
  order, whatever the lookup service does (rejection, time-out, a payload of any type).
  The output row has every key of the input row, the same value as the input row under
  every key other than \<open>phonenumber\<close>, and a string (so neither \<open>null\<close> nor \<open>undefined\<close>)
  under \<open>phonenumber\<close>; when the call is rejected that string is \<open>Not Found\<close>.
\<close>

theorem enrichLoop_one_output_per_row:
  "length (fst (enrichLoop api limited 0 [] [])) = length limited
   \<and> (\<forall>i < length limited.
         (\<exists>phone. objGet (fst (enrichLoop api limited 0 [] []) ! i) ''phonenumber'' = JStr phone)
         \<and> (\<forall>k. k \<noteq> ''phonenumber'' \<longrightarrow>
               objGet (fst (enrichLoop api limited 0 [] []) ! i) k = objGet (limited ! i) k)
         \<and> set (objKeys (limited ! i)) \<subseteq> set (objKeys (fst (enrichLoop api limited 0 [] []) ! i))
         \<and> (\<forall>msg. api i (objGet (limited ! i) ''linkedin'') = Rejected msg \<longrightarrow>
               objGet (fst (enrichLoop api limited 0 [] []) ! i) ''phonenumber'' = JStr ''Not Found''))"
proof -
  have res: "fst (enrichLoop api limited 0 [] []) = map (\<lambda>p. objSet ''phonenumber'' (JStr (fst (findPhone (api (fst p) (objGet (snd p) ''linkedin'')) (snd p)))) (snd p)) (zip [0 ..< length limited] limited)"
    using enrichLoop_results [of api limited 0 "[]" "[]"] by simp
  have nth: "fst (enrichLoop api limited 0 [] []) ! i =
      objSet ''phonenumber'' (JStr (fst (findPhone (api i (objGet (limited ! i) ''linkedin'')) (limited ! i)))) (limited ! i)"
    if "i < length limited" for i
    using that by (simp add: res)
  show ?thesis
  proof (intro conjI allI impI)
    show "length (fst (enrichLoop api limited 0 [] [])) = length limited"
      by (simp add: res)
  next
    fix i assume "i < length limited"
    then show "\<exists>phone. objGet (fst (enrichLoop api limited 0 [] []) ! i) ''phonenumber'' = JStr phone"
      by (simp add: nth objGet_objSet)
  next
    fix i k assume "i < length limited" "k \<noteq> ''phonenumber''"
    then show "objGet (fst (enrichLoop api limited 0 [] []) ! i) k = objGet (limited ! i) k"
      by (simp add: nth objGet_objSet)
  next
    fix i assume "i < length limited"
    then show "set (objKeys (limited ! i)) \<subseteq> set (objKeys (fst (enrichLoop api limited 0 [] []) ! i))"
      by (auto simp add: nth objKeys_objSet)
  next
    fix i msg assume "i < length limited" "api i (objGet (limited ! i) ''linkedin'') = Rejected msg"
    then show "objGet (fst (enrichLoop api limited 0 [] []) ! i) ''phonenumber'' = JStr ''Not Found''"
      by (simp add: nth objGet_objSet findPhone_Rejected)
  qed
qed

theorem enrichLoop_one_output_per_row_witness:
  "fst (enrichLoop (\<lambda>i u. if i = 0 then Rejected ''timeout of 0ms exceeded'' else Resolved (JObj [(''phone'', JArr [JNum 5])]))
        [[(''company'', JStr ''A''), (''linkedin'', JStr ''u1''), (''rn'', JNum 1)],
         [(''company'', JStr ''B''), (''linkedin'', JStr ''u2''), (''rn'', JNum 1)]] 0 [] [])
   = [[(''company'', JStr ''A''), (''linkedin'', JStr ''u1''), (''rn'', JNum 1), (''phonenumber'', JStr ''Not Found'')],
      [(''company'', JStr ''B''), (''linkedin'', JStr ''u2''), (''rn'', JNum 1), (''phonenumber'', JStr ''Error'')]]
   \<and> (0::nat) < length [[(''company'', JStr ''A''), (''linkedin'', JStr ''u1''), (''rn'', JNum 1)],
         [(''company'', JStr ''B''), (''linkedin'', JStr ''u2''), (''rn'', JNum 1)]]"
  using enrichLoop_one_output_per_row [of "\<lambda>i u. if i = 0 then Rejected ''timeout of 0ms exceeded'' else Resolved (JObj [(''phone'', JArr [JNum 5])])"
      "[[(''company'', JStr ''A''), (''linkedin'', JStr ''u1''), (''rn'', JNum 1)],
         [(''company'', JStr ''B''), (''linkedin'', JStr ''u2''), (''rn'', JNum 1)]]"]
  by (simp add: findPhone_def cleanPhoneNumber_def objGet_def Let_def)

text \<open>
  C4: when the lookup succeeds and the response carries no \<open>phone\<close> field, or an empty
  one, the fallback string \<open>Not Found\<close> is passed through \<open>cleanPhoneNumber\<close>, which
  deletes every one of its characters: the row gets the empty string, not \<open>Not Found\<close>.
\<close>

theorem enrichLoop_absent_phone_is_empty:
  "fst (enrichLoop (\<lambda>i u. Resolved (JObj [(''status'', JStr ''ok'')]))
        [[(''company'', JStr ''Acme''), (''linkedin'', JStr ''https://www.linkedin.com/in/a''), (''rn'', JNum 1)]] 0 [] [])
     = [[(''company'', JStr ''Acme''), (''linkedin'', JStr ''https://www.linkedin.com/in/a''), (''rn'', JNum 1),
         (''phonenumber'', JStr [])]]
   \<and> fst (enrichLoop (\<lambda>i u. Resolved (JObj [(''phone'', JStr [])]))
        [[(''company'', JStr ''Acme''), (''linkedin'', JStr ''https://www.linkedin.com/in/a''), (''rn'', JNum 1)]] 0 [] [])
     = [[(''company'', JStr ''Acme''), (''linkedin'', JStr ''https://www.linkedin.com/in/a''), (''rn'', JNum 1),
         (''phonenumber'', JStr [])]]
   \<and> cleanPhoneNumber (JStr ''Not Found'') = []"
  by (simp add: findPhone_def cleanPhoneNumber_def stripNonPhone_def isDigit_def objGet_def Let_def)

section \<open>Properties of the serialization\<close>














section \<open>Properties of the retention step\<close>

lemma foldl_removeObject:
  "foldl (\<lambda>b f. removeObject env (obj_name f) b) bucket xs =
     filter (\<lambda>f. \<not> list_ex (\<lambda>x. obj_name x = obj_name f \<and> \<not> remove_fails env (obj_name x)) xs) bucket"
proof (induction xs arbitrary: bucket)
  case Nil
  show ?case by simp
next
  case (Cons x xs)
  have "foldl (\<lambda>b f. removeObject env (obj_name f) b) bucket (x # xs) =
        foldl (\<lambda>b f. removeObject env (obj_name f) b) (removeObject env (obj_name x) bucket) xs"
    by simp
  also have "\<dots> = filter (\<lambda>f. \<not> list_ex (\<lambda>x. obj_name x = obj_name f \<and> \<not> remove_fails env (obj_name x)) xs)
                      (removeObject env (obj_name x) bucket)"
    by (rule Cons.IH)
  also have "\<dots> = filter (\<lambda>f. \<not> list_ex (\<lambda>x. obj_name x = obj_name f \<and> \<not> remove_fails env (obj_name x)) (x # xs))
                      bucket"
    by (auto simp: removeObject_def intro: filter_cong)
  finally show ?case .
qed

lemma newest_first_split:
  fixes s :: "storage_obj list"
  assumes "s = sort_key (\<lambda>f. - created_at f) xs"
    and "k \<in> set (take n s)" and "r \<in> set (drop n s)"
  shows "created_at r \<le> created_at k"
proof -
  have "sorted (map (\<lambda>f. - created_at f) (take n s @ drop n s))"
    using assms(1) by simp
  then have "\<forall>a \<in> set (take n s). \<forall>b \<in> set (drop n s). - created_at a \<le> - created_at b"
    unfolding map_append sorted_append by auto
  with assms(2,3) show ?thesis by fastforce
qed

lemma distinct_take_drop_sets:
  assumes "distinct s"
  shows "set s - set (drop n s) = set (take n s)"
proof -
  have "distinct (take n s @ drop n s)" using assms by simp
  then have "set (take n s) \<inter> set (drop n s) = {}" by (simp only: distinct_append)
  moreover have "set s = set (take n s) \<union> set (drop n s)"
    by (metis append_take_drop_id set_append)
  ultimately show ?thesis by auto
qed

lemma retention_no_failures:
  assumes dn: "distinct (map obj_name b1)" and len: "length b1 \<le> 100"
    and nofail: "\<forall>n. \<not> remove_fails env n"
    and s: "s = sort_key (\<lambda>f. - created_at f) b1"
    and after: "after = foldl (\<lambda>b f. removeObject env (obj_name f) b) b1 (staleObjects (listObjects 100 b1))"
  shows "set after = set (take 3 s)" and "length after = min 3 (length b1)" and "distinct after"
proof -
  have d: "distinct b1" using dn by (simp add: distinct_map)
  have stale: "staleObjects (listObjects 100 b1) = drop 3 s"
    using len by (simp add: staleObjects_def listObjects_def s)
  have inj: "inj_on obj_name (set b1)"
    using dn by (simp add: distinct_map)
  have "after = filter (\<lambda>f. f \<notin> set (drop 3 s)) b1"
    unfolding after foldl_removeObject stale
  proof (rule filter_cong [OF refl])
    fix f assume f: "f \<in> set b1"
    have "set (drop 3 s) \<subseteq> set b1"
      using set_drop_subset [of 3 s] by (simp add: s)
    then show "(\<not> list_ex (\<lambda>x. obj_name x = obj_name f \<and> \<not> remove_fails env (obj_name x)) (drop 3 s))
       = (f \<notin> set (drop 3 s))"
      using nofail f inj by (auto simp: list_ex_iff dest: inj_onD)
  qed
  then have a: "after = filter (\<lambda>f. f \<notin> set (drop 3 s)) b1" .
  have ds: "distinct s" using d by (simp add: s)
  have "set after = set s - set (drop 3 s)"
    by (auto simp: a s)
  then show sa: "set after = set (take 3 s)"
    using distinct_take_drop_sets [OF ds] by simp
  show da: "distinct after" using d by (simp add: a)
  have "length after = card (set after)"
    using da by (simp add: distinct_card)
  also have "\<dots> = length (take 3 s)"
    using ds by (simp only: sa distinct_card [OF distinct_take])
  finally show "length after = min 3 (length b1)"
    by (simp add: s min.commute)
qed


lemma exportCSVAndUpload_success:
  assumes "upload_error env = None" and "list_ok env"
  shows "exportCSVAndUpload results env now filePath w =
     (Redirect (public_base env @ ''hatch_result_'' @ showInt now @ ''.csv''),
      w\<lparr>hatch_exports :=
          foldl (\<lambda>b f. removeObject env (obj_name f) b)
            (upsertObject \<lparr>obj_name = ''hatch_result_'' @ showInt now @ ''.csv'', created_at = stamp env,
                content = writeToStream True (safeResults results)\<rparr> (hatch_exports w))
            (staleObjects (listObjects 100
              (upsertObject \<lparr>obj_name = ''hatch_result_'' @ showInt now @ ''.csv'', created_at = stamp env,
                content = writeToStream True (safeResults results)\<rparr> (hatch_exports w)))),
        timers := timers w @ (if cleanup_files env then [(1000, UnlinkFiles filePath (''hatch_output_'' @ showInt now @ ''.csv''))] else [])
                  @ [(60000, RemoveObject ''hatch-exports'' (''hatch_result_'' @ showInt now @ ''.csv''))]\<rparr>)"
  using assms by (simp add: exportCSVAndUpload_def Let_def)

text \<open>
  C6: after a successful upload the retention step lists at most 100 objects, orders
  them newest first and asks for the removal of every listed object after the first
  three; the objects left in the bucket are those not removed, and the response is the
  redirect whether or not removals fail. With no failing removal, distinct names and at
  most 100 objects, the bucket is left with its three newest objects (all of them when
  there are fewer). In particular, publishing a fourth artifact into a bucket holding
  three removes exactly one object, an oldest one.
\<close>

theorem retention_prunes_beyond_three:
  assumes up: "upload_error env = None" and ls: "list_ok env"
    and b1: "b1 = upsertObject \<lparr>obj_name = ''hatch_result_'' @ showInt now @ ''.csv'', created_at = stamp env,
                content = writeToStream True (safeResults results)\<rparr> (hatch_exports w)"
    and after: "after = hatch_exports (snd (exportCSVAndUpload results env now filePath w))"
  shows
    "fst (exportCSVAndUpload results env now filePath w)
       = Redirect (public_base env @ ''hatch_result_'' @ showInt now @ ''.csv'')
     \<and> after = filter (\<lambda>f. \<not> list_ex (\<lambda>x. obj_name x = obj_name f \<and> \<not> remove_fails env (obj_name x))
                              (drop 3 (sort_key (\<lambda>f. - created_at f) (take 100 b1)))) b1
     \<and> ((\<forall>n. \<not> remove_fails env n) \<and> distinct (map obj_name b1) \<and> length b1 \<le> 100 \<longrightarrow>
          length after = min 3 (length b1) \<and> set after \<subseteq> set b1
          \<and> (\<forall>k \<in> set after. \<forall>r \<in> set b1 - set after. created_at r \<le> created_at k))
     \<and> ((\<forall>n. \<not> remove_fails env n) \<and> length (hatch_exports w) = 3
          \<and> distinct (map obj_name (hatch_exports w))
          \<and> ''hatch_result_'' @ showInt now @ ''.csv'' \<notin> set (map obj_name (hatch_exports w)) \<longrightarrow>
          length after = 3 \<and> set after \<subseteq> set b1 \<and> card (set b1 - set after) = 1
          \<and> (\<forall>k \<in> set after. \<forall>r \<in> set b1 - set after. created_at r \<le> created_at k))"
proof -
  note run = exportCSVAndUpload_success [OF up ls, of results now filePath w]
  have fold: "after = foldl (\<lambda>b f. removeObject env (obj_name f) b) b1 (staleObjects (listObjects 100 b1))"
    by (simp add: after run b1)
  have general: "length after = min 3 (length b1) \<and> set after \<subseteq> set b1
        \<and> (\<forall>k \<in> set after. \<forall>r \<in> set b1 - set after. created_at r \<le> created_at k)
        \<and> distinct after \<and> distinct b1"
    if nofail: "\<forall>n. \<not> remove_fails env n" and dn: "distinct (map obj_name b1)" and len: "length b1 \<le> 100"
  proof -
    define s where "s = sort_key (\<lambda>f. - created_at f) b1"
    note r = retention_no_failures [OF dn len nofail s_def fold]
    have d: "distinct b1" using dn by (simp add: distinct_map)
    have ds: "distinct s" using d by (simp add: s_def)
    have sub: "set after \<subseteq> set b1"
      using set_take_subset [of 3 s] by (simp add: r(1)) (simp add: s_def)
    have rest: "set b1 - set after = set (drop 3 s)"
    proof -
      have "set b1 = set (take 3 s) \<union> set (drop 3 s)"
        by (metis append_take_drop_id set_append set_sort s_def)
      moreover have "set (take 3 s) \<inter> set (drop 3 s) = {}"
        using ds by (metis append_take_drop_id distinct_append)
      ultimately show ?thesis by (auto simp: r(1))
    qed
    have "\<forall>k \<in> set after. \<forall>r \<in> set b1 - set after. created_at r \<le> created_at k"
      using newest_first_split [OF s_def] by (simp only: rest) (simp add: r(1))
    with r sub d show ?thesis by simp
  qed
  have scenario: "length after = 3 \<and> set after \<subseteq> set b1 \<and> card (set b1 - set after) = 1
        \<and> (\<forall>k \<in> set after. \<forall>r \<in> set b1 - set after. created_at r \<le> created_at k)"
    if nofail: "\<forall>n. \<not> remove_fails env n" and l3: "length (hatch_exports w) = 3"
      and dn: "distinct (map obj_name (hatch_exports w))"
      and fresh: "''hatch_result_'' @ showInt now @ ''.csv'' \<notin> set (map obj_name (hatch_exports w))"
  proof -
    have b1': "b1 = hatch_exports w @ [\<lparr>obj_name = ''hatch_result_'' @ showInt now @ ''.csv'', created_at = stamp env,
                content = writeToStream True (safeResults results)\<rparr>]"
      using fresh by (simp add: b1 upsertObject_def)
    have len: "length b1 = 4" by (simp add: b1' l3)
    have dn1: "distinct (map obj_name b1)" using dn fresh by (simp add: b1')
    from general [OF nofail dn1] len
    have g: "length after = 3" "set after \<subseteq> set b1" "distinct after" "distinct b1"
      "\<forall>k \<in> set after. \<forall>r \<in> set b1 - set after. created_at r \<le> created_at k"
      by simp_all
    have "card (set b1 - set after) = card (set b1) - card (set after)"
      using g(2) by (simp add: card_Diff_subset)
    also have "\<dots> = 1"
      using g(1,3,4) len by (simp add: distinct_card)
    finally show ?thesis using g by simp
  qed
  show ?thesis
  proof (intro conjI impI)
    show "fst (exportCSVAndUpload results env now filePath w)
       = Redirect (public_base env @ ''hatch_result_'' @ showInt now @ ''.csv'')"
      by (simp add: run)
    show "after = filter (\<lambda>f. \<not> list_ex (\<lambda>x. obj_name x = obj_name f \<and> \<not> remove_fails env (obj_name x))
                              (drop 3 (sort_key (\<lambda>f. - created_at f) (take 100 b1)))) b1"
      by (simp add: fold foldl_removeObject staleObjects_def listObjects_def)
  qed (use general scenario in \<open>simp_all\<close>)
qed


theorem retention_prunes_beyond_three_witness:
  "upload_error \<lparr>upload_error = None, list_ok = True, remove_fails = (\<lambda>n. False),
       public_base = ''https://cdn/'', stamp = 40, cleanup_files = False\<rparr> = None
   \<and> exportCSVAndUpload []
        \<lparr>upload_error = None, list_ok = True, remove_fails = (\<lambda>n. False),
          public_base = ''https://cdn/'', stamp = 40, cleanup_files = False\<rparr>
        1700 ''uploads/f''
        \<lparr>hatch_exports = [\<lparr>obj_name = ''a.csv'', created_at = 10, content = []\<rparr>,
                           \<lparr>obj_name = ''b.csv'', created_at = 30, content = []\<rparr>,
                           \<lparr>obj_name = ''c.csv'', created_at = 20, content = []\<rparr>],
          leadexports = [], poclevelexports = [], console = [], timers = []\<rparr>
     = (Redirect ''https://cdn/hatch_result_1700.csv'',
        \<lparr>hatch_exports = [\<lparr>obj_name = ''b.csv'', created_at = 30, content = []\<rparr>,
                           \<lparr>obj_name = ''c.csv'', created_at = 20, content = []\<rparr>,
                           \<lparr>obj_name = ''hatch_result_1700.csv'', created_at = 40, content = []\<rparr>],
          leadexports = [], poclevelexports = [], console = [],
          timers = [(60000, RemoveObject ''hatch-exports'' ''hatch_result_1700.csv'')]\<rparr>)"
proof -
  let ?env = "\<lparr>upload_error = None, list_ok = True, remove_fails = (\<lambda>n. False),
       public_base = ''https://cdn/'', stamp = 40, cleanup_files = False\<rparr>"
  let ?w = "\<lparr>hatch_exports = [\<lparr>obj_name = ''a.csv'', created_at = 10, content = []\<rparr>,
                           \<lparr>obj_name = ''b.csv'', created_at = 30, content = []\<rparr>,
                           \<lparr>obj_name = ''c.csv'', created_at = 20, content = []\<rparr>],
          leadexports = [], poclevelexports = [], console = [], timers = []\<rparr>"
  have name: "showInt 1700 = ''1700''"
    by (simp add: showInt_def showNat.simps)
  have up: "upload_error ?env = None" and ls: "list_ok ?env"
    by simp_all
  have csv: "writeToStream True (safeResults []) = []"
    by (simp add: writeToStream_def safeResults_def csvCells_def)
  have b1: "hatch_exports ?w @ [\<lparr>obj_name = ''hatch_result_1700.csv'', created_at = 40, content = []\<rparr>]
      = upsertObject \<lparr>obj_name = ''hatch_result_'' @ showInt 1700 @ ''.csv'', created_at = stamp ?env,
                content = writeToStream True (safeResults [])\<rparr> (hatch_exports ?w)"
    by (simp add: upsertObject_def name csv)
  note t = retention_prunes_beyond_three [OF up ls b1 refl, of "''uploads/f''"]
  have "fst (exportCSVAndUpload [] ?env 1700 ''uploads/f'' ?w) = Redirect ''https://cdn/hatch_result_1700.csv''"
    using t by (simp add: name)
  moreover have "hatch_exports (snd (exportCSVAndUpload [] ?env 1700 ''uploads/f'' ?w))
      = [\<lparr>obj_name = ''b.csv'', created_at = 30, content = []\<rparr>,
         \<lparr>obj_name = ''c.csv'', created_at = 20, content = []\<rparr>,
         \<lparr>obj_name = ''hatch_result_1700.csv'', created_at = 40, content = []\<rparr>]"
    using t by simp
  moreover have "exportCSVAndUpload [] ?env 1700 ''uploads/f'' ?w
      = (fst (exportCSVAndUpload [] ?env 1700 ''uploads/f'' ?w),
         ?w\<lparr>hatch_exports := hatch_exports (snd (exportCSVAndUpload [] ?env 1700 ''uploads/f'' ?w)),
             timers := [(60000, RemoveObject ''hatch-exports'' ''hatch_result_1700.csv'')]\<rparr>)"
    by (simp add: exportCSVAndUpload_def Let_def name)
  ultimately show ?thesis
    by simp
qed

section \<open>Properties of the upload route\<close>

lemma uploadRoute_rejects_invalid:
  assumes "parseInt (toStr (body_limit req)) = JNaN \<or> parseInt (toStr (body_limit req)) = JNum 0
           \<or> req_file req = None"
  shows "uploadRoute env api now req w = (Send 400 ''Invalid input.'', w)"
  using assms by (auto simp: uploadRoute_def Let_def)

lemma parseInt_examples:
  "parseInt ''0'' = JNum 0" "parseInt ''abc'' = JNaN" "parseInt ''undefined'' = JNaN"
  "parseInt [] = JNaN" "parseInt ''-5'' = JNum (- 5)" "parseInt '' 12px'' = JNum 12"
  by code_simp+


text \<open>
  C5: a negative limit is not rejected. \<open>parseInt("-5")\<close> is \<open>-5\<close>, which is truthy, so
  the guard \<open>!limit\<close> lets the request through: the query keeps no row, no lookup is made,
  an artifact with no content is published and the response is the redirect to it.
\<close>

theorem uploadRoute_negative_limit_accepted:
  "uploadRoute
     \<lparr>upload_error = None, list_ok = True, remove_fails = (\<lambda>n. False),
       public_base = ''https://cdn/'', stamp = 40, cleanup_files = False\<rparr>
     (\<lambda>i u. Resolved (JObj [(''phone'', JStr ''+14155550100'')]))
     1700
     \<lparr>body_limit = JStr ''-5'',
       req_file = Some \<lparr>file_path = ''uploads/f'', columns = [''company'', ''linkedin''],
                         uploaded = [[(''company'', JStr ''Acme''), (''linkedin'', JStr ''u1'')]]\<rparr>\<rparr>
     \<lparr>hatch_exports = [], leadexports = [], poclevelexports = [], console = [], timers = []\<rparr>
   = (Redirect ''https://cdn/hatch_result_1700.csv'',
      \<lparr>hatch_exports = [\<lparr>obj_name = ''hatch_result_1700.csv'', created_at = 40, content = []\<rparr>],
        leadexports = [], poclevelexports = [], console = [],
        timers = [(60000, RemoveObject ''hatch-exports'' ''hatch_result_1700.csv'')]\<rparr>)"
proof -
  have limit: "parseInt ''-5'' = JNum (- 5)"
    by (rule parseInt_examples)
  have limited: "limitedQuery (- 5) [''company'', ''linkedin'']
                   [[(''company'', JStr ''Acme''), (''linkedin'', JStr ''u1'')]] = Some []"
    by code_simp
  have name: "showInt 1700 = ''1700''"
    by (simp add: showInt_def showNat.simps)
  have csv: "writeToStream True (safeResults []) = []"
    by (simp add: writeToStream_def safeResults_def csvCells_def)
  show ?thesis
    by (simp add: uploadRoute_def limit limited exportCSVAndUpload_def name csv Let_def
        upsertObject_def staleObjects_def listObjects_def)
qed

theorem uploadRoute_negative_limit_accepted_witness:
  "truthy (parseInt ''-5'')
   \<and> fst (uploadRoute
     \<lparr>upload_error = None, list_ok = True, remove_fails = (\<lambda>n. False),
       public_base = ''https://cdn/'', stamp = 40, cleanup_files = False\<rparr>
     (\<lambda>i u. Resolved (JObj [(''phone'', JStr ''+14155550100'')]))
     1700
     \<lparr>body_limit = JStr ''-5'',
       req_file = Some \<lparr>file_path = ''uploads/f'', columns = [''company'', ''linkedin''],
                         uploaded = [[(''company'', JStr ''Acme''), (''linkedin'', JStr ''u1'')]]\<rparr>\<rparr>
     \<lparr>hatch_exports = [], leadexports = [], poclevelexports = [], console = [], timers = []\<rparr>)
     \<noteq> Send 400 ''Invalid input.''"
  using uploadRoute_negative_limit_accepted by (simp add: parseInt_examples)

section \<open>Properties of the grouped limiter\<close>

lemma resolveColumn_lower: "resolveColumn name cols = Some c \<Longrightarrow> lowerCase c = name"
  by (auto simp: resolveColumn_def find_Some_iff)

lemma windowColumn_no_rn: "resolveColumn ''rn'' cols = None \<Longrightarrow> windowColumn cols = ''rn''"
  by (auto simp: resolveColumn_def windowColumn_def find_None_iff)

lemma objGet_withRn: "c \<noteq> alias \<Longrightarrow> objGet (withRn alias p) c = objGet (fst p) c"
  by (simp add: withRn_def objGet_objSet)

lemma filter_numbered_below:
  "filter (\<lambda>p. snd p < m) (zip xs [a ..< a + length xs]) = take (m - a) (zip xs [a ..< a + length xs])"
proof (induction xs arbitrary: a)
  case Nil
  show ?case by simp
next
  case (Cons x xs)
  have upt: "[a ..< a + length (x # xs)] = a # [Suc a ..< Suc a + length xs]"
    by (subst upt_conv_Cons) simp_all
  show ?case
  proof (cases "a < m")
    case True
    then have "m - a = Suc (m - Suc a)" by simp
    with True show ?thesis
      by (simp only: upt zip_Cons_Cons filter.simps snd_conv if_True take_Suc_Cons Cons.IH)
  next
    case False
    then have "m - a = 0" "m - Suc a = 0" by simp_all
    with False show ?thesis
      using Cons.IH [of "Suc a"] by (simp only: upt zip_Cons_Cons filter.simps snd_conv if_False take_0)
  qed
qed

lemma filter_rn_limit:
  assumes "0 \<le> N"
  shows "filter (\<lambda>p. int (snd p) \<le> N) (zip xs [1 ..< Suc (length xs)])
         = zip (take (nat N) xs) [1 ..< Suc (length (take (nat N) xs))]"
proof -
  have "(\<lambda>p::'a \<times> nat. int (snd p) \<le> N) = (\<lambda>p. snd p < Suc (nat N))"
    using assms by (auto simp: fun_eq_iff)
  then have "filter (\<lambda>p. int (snd p) \<le> N) (zip xs [1 ..< Suc (length xs)])
      = take (nat N) (zip xs [1 ..< 1 + length xs])"
    using filter_numbered_below [of "Suc (nat N)" xs 1] by simp
  also have "\<dots> = zip (take (nat N) xs) (take (nat N) [1 ..< 1 + length xs])"
    by (simp add: take_zip)
  also have "take (nat N) [1 ..< 1 + length xs] = [1 ..< Suc (length (take (nat N) xs))]"
  proof (cases "nat N \<le> length xs")
    case True
    then have "take (nat N) [1 ..< 1 + length xs] = [1 ..< 1 + nat N]"
      by (intro take_upt) simp
    with True show ?thesis by (simp add: min_def del: upt_Suc)
  next
    case False
    then have "take (nat N) [1 ..< 1 + length xs] = [1 ..< 1 + length xs]"
      by (intro take_all) (simp del: upt_Suc)
    with False show ?thesis by (simp add: min_def del: upt_Suc)
  qed
  finally show ?thesis .
qed

lemma concat_single_block:
  assumes "distinct gs"
  shows "concat (map (\<lambda>g. if g = G then blk else []) gs) = (if G \<in> set gs then blk else [])"
  using assms by (induction gs) auto

lemma rowNumber_in_partition:
  assumes "p \<in> set (rowNumber cc lc tbl g)"
  shows "objGet (fst p) cc = g"
proof -
  from assms obtain ns where
    "(fst p, snd p) \<in> set (zip (sort_key (\<lambda>r. sqlKey (objGet r lc)) (filter (\<lambda>r. objGet r cc = g) tbl)) ns)"
    unfolding rowNumber_def Let_def by auto
  then have "fst p \<in> set (sort_key (\<lambda>r. sqlKey (objGet r lc)) (filter (\<lambda>r. objGet r cc = g) tbl))"
    by (rule set_zip_leftD)
  then show ?thesis by simp
qed

lemma numbered_group:
  "filter (\<lambda>p. objGet (fst p) cc = G) (concat (map (rowNumber cc lc tbl) (partitionKeys cc tbl)))
     = rowNumber cc lc tbl G"
proof -
  have blk: "filter (\<lambda>p. objGet (fst p) cc = G) (rowNumber cc lc tbl g)
              = (if g = G then rowNumber cc lc tbl G else [])" for g
  proof (cases "g = G")
    case True
    have "filter (\<lambda>p. objGet (fst p) cc = G) (rowNumber cc lc tbl G) = rowNumber cc lc tbl G"
      using rowNumber_in_partition [of _ cc lc tbl G] by (intro filter_True) blast
    with True show ?thesis by simp
  next
    case False
    have "filter (\<lambda>p. objGet (fst p) cc = G) (rowNumber cc lc tbl g) = []"
      using False rowNumber_in_partition [of _ cc lc tbl g] by (fastforce simp: filter_empty_conv)
    with False show ?thesis by simp
  qed
  have "filter (\<lambda>p. objGet (fst p) cc = G) (concat (map (rowNumber cc lc tbl) (partitionKeys cc tbl)))
      = concat (map (\<lambda>g. if g = G then rowNumber cc lc tbl G else []) (partitionKeys cc tbl))"
    by (simp add: filter_concat comp_def blk)
  also have "\<dots> = (if G \<in> set (partitionKeys cc tbl) then rowNumber cc lc tbl G else [])"
    by (rule concat_single_block) (simp add: partitionKeys_def)
  also have "\<dots> = rowNumber cc lc tbl G"
  proof (cases "G \<in> set (partitionKeys cc tbl)")
    case False
    then have "filter (\<lambda>r. objGet r cc = G) tbl = []"
      by (auto simp: partitionKeys_def filter_empty_conv)
    then have "rowNumber cc lc tbl G = []"
      by (simp add: rowNumber_def)
    with False show ?thesis by simp
  qed simp
  finally show ?thesis .
qed

lemma limitedQuery_group:
  assumes cc: "resolveColumn ''company'' cols = Some cc"
    and lc: "resolveColumn ''linkedin'' cols = Some lc"
    and no_rn: "resolveColumn ''rn'' cols = None"
  shows "\<exists>out. limitedQuery N cols tbl = Some out
           \<and> filter (\<lambda>r. objGet r cc = G) out
               = map (withRn ''rn'') (filter (\<lambda>p. int (snd p) \<le> N) (rowNumber cc lc tbl G))"
proof -
  let ?numbered = "concat (map (rowNumber cc lc tbl) (partitionKeys cc tbl))"
  let ?out = "map (withRn ''rn'') (filter (\<lambda>p. int (snd p) \<le> N) ?numbered)"
  have out: "limitedQuery N cols tbl = Some ?out"
    by (simp add: limitedQuery_def cc lc no_rn windowColumn_no_rn Let_def)
  have "lowerCase cc = ''company''" using cc by (rule resolveColumn_lower)
  moreover have "lowerCase ''rn'' = ''rn''" by (simp add: lowerCase_def)
  ultimately have ne: "cc \<noteq> ''rn''" by auto
  have "filter (\<lambda>r. objGet r cc = G) ?out
      = map (withRn ''rn'') (filter (\<lambda>p. objGet (fst p) cc = G) (filter (\<lambda>p. int (snd p) \<le> N) ?numbered))"
    by (simp add: filter_map comp_def objGet_withRn [OF ne])
  also have "filter (\<lambda>p. objGet (fst p) cc = G) (filter (\<lambda>p. int (snd p) \<le> N) ?numbered)
      = filter (\<lambda>p. int (snd p) \<le> N) (filter (\<lambda>p. objGet (fst p) cc = G) ?numbered)"
    by (simp add: conj_commute)
  finally show ?thesis
    using out by (simp add: numbered_group)
qed

lemma sorted_take_below_drop:
  assumes "sorted (map f s)" and "k \<in> set (take n s)" and "r \<in> set (drop n s)"
  shows "f k \<le> f r"
proof -
  have "sorted (map f (take n s) @ map f (drop n s))"
    using assms(1) by (simp flip: map_append)
  with assms(2,3) show ?thesis
    by (auto simp: sorted_append)
qed

lemma limitedQuery_keeps_smallest_per_group:
  assumes pos: "0 < N"
    and cc: "resolveColumn ''company'' cols = Some cc"
    and lc: "resolveColumn ''linkedin'' cols = Some lc"
    and no_rn: "resolveColumn ''rn'' cols = None"
  shows "\<exists>out kept.
           limitedQuery N cols tbl = Some out
         \<and> filter (\<lambda>r. objGet r cc = G) out = map (withRn ''rn'') (zip kept [1 ..< Suc (length kept)])
         \<and> int (length (filter (\<lambda>r. objGet r cc = G) out)) \<le> N
         \<and> length kept = min (nat N) (length (filter (\<lambda>r. objGet r cc = G) tbl))
         \<and> sorted (map (\<lambda>r. sqlKey (objGet r lc)) kept)
         \<and> mset kept \<subseteq># mset (filter (\<lambda>r. objGet r cc = G) tbl)
         \<and> (\<forall>k \<in> set kept. \<forall>r \<in># mset (filter (\<lambda>r. objGet r cc = G) tbl) - mset kept.
               sqlKey (objGet k lc) \<le> sqlKey (objGet r lc))"
proof -
  define grp where "grp = filter (\<lambda>r. objGet r cc = G) tbl"
  define s where "s = sort_key (\<lambda>r. sqlKey (objGet r lc)) grp"
  define kept where "kept = take (nat N) s"
  from limitedQuery_group [OF cc lc no_rn, of N tbl G] obtain out where
    out: "limitedQuery N cols tbl = Some out"
    and grp_out: "filter (\<lambda>r. objGet r cc = G) out
               = map (withRn ''rn'') (filter (\<lambda>p. int (snd p) \<le> N) (rowNumber cc lc tbl G))"
    by blast
  have srt: "sorted (map (\<lambda>r. sqlKey (objGet r lc)) s)" by (simp add: s_def)
  have ms: "mset grp = mset kept + mset (drop (nat N) s)"
  proof -
    have "mset grp = mset s" by (simp add: s_def)
    also have "\<dots> = mset (take (nat N) s) + mset (drop (nat N) s)"
      by (simp flip: mset_append)
    finally show ?thesis by (simp add: kept_def)
  qed
  have shape: "filter (\<lambda>r. objGet r cc = G) out = map (withRn ''rn'') (zip kept [1 ..< Suc (length kept)])"
    using pos filter_rn_limit [of N s]
    by (simp add: grp_out rowNumber_def Let_def grp_def s_def kept_def del: upt_Suc)
  have len: "length kept = min (nat N) (length grp)"
    by (simp add: kept_def s_def min.commute)
  have "int (length (filter (\<lambda>r. objGet r cc = G) out)) \<le> N"
    using pos by (simp add: shape len del: upt_Suc)
  moreover have "sorted (map (\<lambda>r. sqlKey (objGet r lc)) kept)"
    using sorted_wrt_take [OF srt, of "nat N"] by (simp add: kept_def take_map)
  moreover have "mset kept \<subseteq># mset grp"
    by (simp add: ms)
  moreover have "\<forall>k \<in> set kept. \<forall>r \<in># mset grp - mset kept. sqlKey (objGet k lc) \<le> sqlKey (objGet r lc)"
    using sorted_take_below_drop [OF srt] by (simp add: ms kept_def)
  ultimately show ?thesis
    using out shape len unfolding grp_def by blast
qed

text \<open>
  C2: the limiter does not keep the \<open>N\<close> smallest rows of a group when the uploaded table
  has a column named \<open>rn\<close> of its own. The \<open>WHERE rn <= limit\<close> of the query then reads
  that column: with limit 1, of two rows of one company the row with the larger
  \<open>linkedin\<close> is kept because its own \<open>rn\<close> is 1, and of three rows of one company whose
  own \<open>rn\<close> is 0 all three are kept.
\<close>

theorem limitedQuery_rn_column_captured:
  "limitedQuery 1 [''company'', ''linkedin'', ''rn'']
     [[(''company'', JStr ''Acme''), (''linkedin'', JStr ''u1''), (''rn'', JNum 2)],
      [(''company'', JStr ''Acme''), (''linkedin'', JStr ''u2''), (''rn'', JNum 1)]]
   = Some [[(''company'', JStr ''Acme''), (''linkedin'', JStr ''u2''), (''rn'', JNum 1), (''rn:1'', JNum 2)]]
   \<and> limitedQuery 1 [''company'', ''linkedin'', ''rn'']
     [[(''company'', JStr ''Acme''), (''linkedin'', JStr ''u1''), (''rn'', JNum 0)],
      [(''company'', JStr ''Acme''), (''linkedin'', JStr ''u2''), (''rn'', JNum 0)],
      [(''company'', JStr ''Acme''), (''linkedin'', JStr ''u3''), (''rn'', JNum 0)]]
   = Some [[(''company'', JStr ''Acme''), (''linkedin'', JStr ''u1''), (''rn'', JNum 0), (''rn:1'', JNum 1)],
           [(''company'', JStr ''Acme''), (''linkedin'', JStr ''u2''), (''rn'', JNum 0), (''rn:1'', JNum 2)],
           [(''company'', JStr ''Acme''), (''linkedin'', JStr ''u3''), (''rn'', JNum 0), (''rn:1'', JNum 3)]]"
  by code_simp

theorem limitedQuery_rn_column_captured_witness:
  "map_option (map (\<lambda>r. objGet r ''linkedin''))
     (limitedQuery 1 [''company'', ''linkedin'', ''rn'']
       [[(''company'', JStr ''Acme''), (''linkedin'', JStr ''u1''), (''rn'', JNum 2)],
        [(''company'', JStr ''Acme''), (''linkedin'', JStr ''u2''), (''rn'', JNum 1)]])
   = Some [JStr ''u2'']
   \<and> map_option length
     (limitedQuery 1 [''company'', ''linkedin'', ''rn'']
       [[(''company'', JStr ''Acme''), (''linkedin'', JStr ''u1''), (''rn'', JNum 0)],
        [(''company'', JStr ''Acme''), (''linkedin'', JStr ''u2''), (''rn'', JNum 0)],
        [(''company'', JStr ''Acme''), (''linkedin'', JStr ''u3''), (''rn'', JNum 0)]])
   = Some 3"
  using limitedQuery_rn_column_captured by (simp add: objGet_def)

section \<open>Properties of the bulk exports\<close>

lemma pageSize_pos: "0 < pageSize"
  by (simp add: pageSize_def)

lemma tableStore_page:
  "tableStore tables tbl clientId (page * pageSize) (page * pageSize + pageSize - 1)
     = \<lparr>data = Some (take pageSize (drop (page * pageSize)
                (filter (\<lambda>r. objGet r ''client_id'' = clientId) (tables tbl)))),
        error = None\<rparr>"
proof -
  have "Suc (page * pageSize + pageSize - 1) - page * pageSize = pageSize"
    using pageSize_pos by simp
  then show ?thesis by (simp add: tableStore_def)
qed

lemma pageLoop_step:
  assumes "fetch (page * pageSize) (page * pageSize + pageSize - 1) = \<lparr>data = Some d, error = None\<rparr>"
  shows "pageLoop fetch pre page csvParts headersWritten =
     (case d of
        [] \<Rightarrow> Some (Inr csvParts)
      | first # _ \<Rightarrow>
          if length d < pageSize
          then Some (Inr ((if headersWritten then csvParts else csvParts @ [headerRow first]) @ map rowStr d))
          else pageLoop fetch pre (page + 1)
                 ((if headersWritten then csvParts else csvParts @ [headerRow first]) @ map rowStr d) True)"
  by (subst pageLoop.simps, simp only: assms query_result.select_convs option.case,
      simp split: list.split)

lemma pageLoop_short:
  assumes "fetch (page * pageSize) (page * pageSize + pageSize - 1) = \<lparr>data = Some d, error = None\<rparr>"
    and "d = first # others" and "length d < pageSize"
  shows "pageLoop fetch pre page csvParts headersWritten =
     Some (Inr ((if headersWritten then csvParts else csvParts @ [headerRow first]) @ map rowStr d))"
  using pageLoop_step [of fetch page d pre csvParts headersWritten] assms by simp

lemma pageLoop_full:
  assumes "fetch (page * pageSize) (page * pageSize + pageSize - 1) = \<lparr>data = Some d, error = None\<rparr>"
    and "d = first # others" and "\<not> length d < pageSize"
  shows "pageLoop fetch pre page csvParts headersWritten =
     pageLoop fetch pre (page + 1)
       ((if headersWritten then csvParts else csvParts @ [headerRow first]) @ map rowStr d) True"
  using pageLoop_step [of fetch page d pre csvParts headersWritten] assms by simp

lemma pageLoop_table_result:
  fixes rows :: "row list"
  assumes fetch: "\<And>p. fetch (p * pageSize) (p * pageSize + pageSize - 1)
                        = \<lparr>data = Some (take pageSize (drop (p * pageSize) rows)), error = None\<rparr>"
  shows "pageLoop fetch pre page csvParts headersWritten =
     Some (Inr (case drop (page * pageSize) rows of
                  [] \<Rightarrow> csvParts
                | first # _ \<Rightarrow> (if headersWritten then csvParts else csvParts @ [headerRow first])
                                 @ map rowStr (drop (page * pageSize) rows)))"
proof (induction "length rows - page * pageSize" arbitrary: page csvParts headersWritten rule: less_induct)
  case less
  define rest where "rest = drop (page * pageSize) rows"
  define d where "d = take pageSize rest"
  have f: "fetch (page * pageSize) (page * pageSize + pageSize - 1) = \<lparr>data = Some d, error = None\<rparr>"
    by (simp only: fetch d_def rest_def)
  show ?case
  proof (cases rest)
    case Nil
    then have "d = []" by (simp add: d_def)
    with f have "pageLoop fetch pre page csvParts headersWritten = Some (Inr csvParts)"
      using pageLoop_step [of fetch page "[]" pre csvParts headersWritten] by simp
    with Nil show ?thesis by (simp add: rest_def)
  next
    case (Cons first others)
    then have dc: "d = first # take (pageSize - 1) others"
      using pageSize_pos by (simp add: d_def take_Cons')
    define parts where
      "parts = (if headersWritten then csvParts else csvParts @ [headerRow first]) @ map rowStr d"
    show ?thesis
    proof (cases "length d < pageSize")
      case True
      then have "length rest < pageSize" by (simp add: d_def)
      then have "d = rest" by (simp add: d_def)
      moreover have "pageLoop fetch pre page csvParts headersWritten = Some (Inr parts)"
        unfolding parts_def
        using f dc True by (rule pageLoop_short [of fetch page d first _ pre csvParts headersWritten])
      ultimately show ?thesis
        using Cons by (simp add: parts_def flip: rest_def)
    next
      case False
      then have ge: "pageSize \<le> length rest" by (simp add: d_def)
      have smaller: "length rows - (page + 1) * pageSize < length rows - page * pageSize"
        using ge pageSize_pos by (simp add: rest_def)
      have next_rest: "drop ((page + 1) * pageSize) rows = drop pageSize rest"
        by (simp add: rest_def add.commute)
      have split: "rest = d @ drop pageSize rest"
        by (simp add: d_def)
      have "pageLoop fetch pre page csvParts headersWritten = pageLoop fetch pre (page + 1) parts True"
        unfolding parts_def
        using f dc False by (rule pageLoop_full [of fetch page d first _ pre csvParts headersWritten])
      also have "\<dots> = Some (Inr (case drop pageSize rest of
                  [] \<Rightarrow> parts
                | f # _ \<Rightarrow> parts @ map rowStr (drop pageSize rest)))"
        using less [OF smaller, of parts True] by (simp only: next_rest if_True)
      also have "(case drop pageSize rest of
                  [] \<Rightarrow> parts
                | f # _ \<Rightarrow> parts @ map rowStr (drop pageSize rest))
            = parts @ map rowStr (drop pageSize rest)"
        by (simp split: list.split)
      also have "parts @ map rowStr (drop pageSize rest)
          = (if headersWritten then csvParts else csvParts @ [headerRow first]) @ map rowStr rest"
      proof -
        have "map rowStr rest = map rowStr d @ map rowStr (drop pageSize rest)"
          by (subst split) (simp only: map_append)
        then show ?thesis by (simp add: parts_def)
      qed
      finally show ?thesis
        using Cons by (simp flip: rest_def)
    qed
  qed
qed

lemma case_replicate:
  "0 < n \<Longrightarrow> (case replicate n x of [] \<Rightarrow> a | first # others \<Rightarrow> g first) = g x"
  by (cases n) simp_all

lemma headerRow_keys:
  "headerRow r = (case map fst r of [] \<Rightarrow> [] | k # ks \<Rightarrow> k @ concat (map ((@) '','') ks)) @ [NL]"
  by (simp add: headerRow_def objKeys_def intercalate_concat)

text \<open>
  C9: against a datastore holding a finite list of rows, the loop of the bulk exports,
  in any state, fetches a page of at most 1000 rows; when the page has exactly 1000 rows
  it goes on with the next page, the parts extended by the page (and, when no header was
  written yet, first by the header: the keys of the first row of the page, joined by
  commas and ended by a line feed); when
  the page is shorter it returns the parts so extended, unchanged for an empty page. It
  always returns. Started at page 0 with no parts, it returns the header of the first
  row followed by one part per row, so the header is written once; nothing is written
  for a tenant with no row.
\<close>

theorem pageLoop_terminates_on_finite_table:
  assumes rows: "rows = filter (\<lambda>r. objGet r ''client_id'' = clientId) (tables tbl)"
    and page_rows: "page_rows = take pageSize (drop (page * pageSize) rows)"
    and next_parts:
      "next_parts = (case page_rows of
                       [] \<Rightarrow> csvParts
                     | first # others \<Rightarrow>
                         (if headersWritten then csvParts
                          else csvParts
                               @ [(case map fst first of
                                     [] \<Rightarrow> []
                                   | k # ks \<Rightarrow> k @ concat (map ((@) '','') ks)) @ [NL]])
                         @ map rowStr page_rows)"
  shows "pageSize = 1000
     \<and> length page_rows \<le> pageSize
     \<and> (length page_rows = pageSize \<longrightarrow>
           pageLoop (tableStore tables tbl clientId) pre page csvParts headersWritten
             = pageLoop (tableStore tables tbl clientId) pre (page + 1) next_parts True)
     \<and> (length page_rows < pageSize \<longrightarrow>
           pageLoop (tableStore tables tbl clientId) pre page csvParts headersWritten
             = Some (Inr next_parts))
     \<and> (\<exists>parts. pageLoop (tableStore tables tbl clientId) pre page csvParts headersWritten
                    = Some (Inr parts))
     \<and> pageLoop (tableStore tables tbl clientId) pre 0 [] False
         = Some (Inr (case rows of
                        [] \<Rightarrow> []
                      | first # others \<Rightarrow>
                          ((case map fst first of
                              [] \<Rightarrow> []
                            | k # ks \<Rightarrow> k @ concat (map ((@) '','') ks)) @ [NL])
                          # map rowStr rows))"
proof -
  let ?fetch = "tableStore tables tbl clientId"
  have fetch: "?fetch (p * pageSize) (p * pageSize + pageSize - 1)
                 = \<lparr>data = Some (take pageSize (drop (p * pageSize) rows)), error = None\<rparr>" for p
    by (simp only: tableStore_page rows)
  have f: "?fetch (page * pageSize) (page * pageSize + pageSize - 1)
                 = \<lparr>data = Some page_rows, error = None\<rparr>"
    by (simp only: fetch page_rows)
  note step = pageLoop_step [of ?fetch page page_rows pre csvParts headersWritten]
  have "length page_rows \<le> pageSize"
    by (simp add: page_rows)
  moreover have "pageLoop ?fetch pre page csvParts headersWritten
             = pageLoop ?fetch pre (page + 1) next_parts True"
    if "length page_rows = pageSize"
  proof -
    from that pageSize_pos obtain first others where "page_rows = first # others"
      by (cases page_rows) auto
    with that f show ?thesis
      using step by (simp add: next_parts headerRow_keys)
  qed
  moreover have "pageLoop ?fetch pre page csvParts headersWritten = Some (Inr next_parts)"
    if "length page_rows < pageSize"
    using that f step by (cases page_rows) (simp_all add: next_parts headerRow_keys)
  moreover have "\<exists>parts. pageLoop ?fetch pre page csvParts headersWritten = Some (Inr parts)"
    using pageLoop_table_result [of ?fetch rows pre page csvParts headersWritten] fetch
    by simp
  moreover have "pageLoop ?fetch pre 0 [] False
         = Some (Inr (case rows of
                        [] \<Rightarrow> []
                      | first # others \<Rightarrow>
                          ((case map fst first of
                              [] \<Rightarrow> []
                            | k # ks \<Rightarrow> k @ concat (map ((@) '','') ks)) @ [NL])
                          # map rowStr rows))"
    using pageLoop_table_result [of ?fetch rows pre 0 "[]" False] fetch
    by (cases rows) (simp_all add: headerRow_keys)
  ultimately show ?thesis
    by (simp add: pageSize_def)
qed

theorem pageLoop_terminates_on_finite_table_witness:
  "length (replicate 1000 [(''client_id'', JStr ''c1''), (''name'', JStr ''Ada'')]) = pageSize
   \<and> length ([] :: row list) < pageSize
   \<and> pageLoop (tableStore (\<lambda>t. replicate 1000 [(''client_id'', JStr ''c1''), (''name'', JStr ''Ada'')])
                  ''Leads'' (JStr ''c1''))
        ''Error fetching leads: '' 0 [] False
      = pageLoop (tableStore (\<lambda>t. replicate 1000 [(''client_id'', JStr ''c1''), (''name'', JStr ''Ada'')])
                  ''Leads'' (JStr ''c1''))
        ''Error fetching leads: '' 1
        ((''client_id,name'' @ [NL])
         # replicate 1000 (rowStr [(''client_id'', JStr ''c1''), (''name'', JStr ''Ada'')])) True
   \<and> pageLoop (tableStore (\<lambda>t. replicate 1000 [(''client_id'', JStr ''c1''), (''name'', JStr ''Ada'')])
                  ''Leads'' (JStr ''c1''))
        ''Error fetching leads: '' 1
        ((''client_id,name'' @ [NL])
         # replicate 1000 (rowStr [(''client_id'', JStr ''c1''), (''name'', JStr ''Ada'')])) True
      = Some (Inr ((''client_id,name'' @ [NL])
         # replicate 1000 (rowStr [(''client_id'', JStr ''c1''), (''name'', JStr ''Ada'')])))
   \<and> rowStr [(''client_id'', JStr ''c1''), (''name'', JStr ''Ada'')]
       = [DQ] @ ''c1'' @ [DQ] @ '','' @ [DQ] @ ''Ada'' @ [DQ] @ [NL]"
proof -
  let ?r = "[(''client_id'', JStr ''c1''), (''name'', JStr ''Ada'')]"
  let ?tables = "\<lambda>t::string. replicate 1000 ?r"
  let ?parts = "(''client_id,name'' @ [NL]) # replicate 1000 (rowStr ?r)"
  have rows: "replicate 1000 ?r = filter (\<lambda>r. objGet r ''client_id'' = JStr ''c1'') (?tables ''Leads'')"
    by (simp add: filter_replicate objGet_def)
  have page0: "replicate 1000 ?r = take pageSize (drop (0 * pageSize) (replicate 1000 ?r))"
    by (simp add: pageSize_def)
  have page1: "([] :: row list) = take pageSize (drop (1 * pageSize) (replicate 1000 ?r))"
    by (simp add: pageSize_def)
  have next0: "?parts = (case replicate 1000 ?r of
                       [] \<Rightarrow> []
                     | first # others \<Rightarrow>
                         (if False then [] else [] @ [((case map fst first of [] \<Rightarrow> [] | k # ks \<Rightarrow> k @ concat (map ((@) '','') ks)) @ [NL])])
                         @ map rowStr (replicate 1000 ?r))"
    by (subst case_replicate) simp_all
  have next1: "?parts = (case ([] :: row list) of
                       [] \<Rightarrow> ?parts
                     | first # others \<Rightarrow>
                         (if True then ?parts else ?parts @ [((case map fst first of [] \<Rightarrow> [] | k # ks \<Rightarrow> k @ concat (map ((@) '','') ks)) @ [NL])])
                         @ map rowStr [])"
    by simp
  note t0 = pageLoop_terminates_on_finite_table
    [where tables = ?tables and tbl = "''Leads''" and clientId = "JStr ''c1''" and page = 0
       and csvParts = "[]" and headersWritten = False and pre = "''Error fetching leads: ''",
     OF rows page0 next0]
  note t1 = pageLoop_terminates_on_finite_table
    [where tables = ?tables and tbl = "''Leads''" and clientId = "JStr ''c1''" and page = 1
       and csvParts = ?parts and headersWritten = True and pre = "''Error fetching leads: ''",
     OF rows page1 next1]
  have full: "length (replicate 1000 ?r) = pageSize" and short: "length ([] :: row list) < pageSize"
    by (simp_all add: pageSize_def)
  have "pageLoop (tableStore ?tables ''Leads'' (JStr ''c1'')) ''Error fetching leads: '' 0 [] False
      = pageLoop (tableStore ?tables ''Leads'' (JStr ''c1'')) ''Error fetching leads: '' 1 ?parts True"
    using t0 [THEN conjunct2, THEN conjunct2, THEN conjunct1] full by simp
  moreover have "pageLoop (tableStore ?tables ''Leads'' (JStr ''c1'')) ''Error fetching leads: '' 1 ?parts True
      = Some (Inr ?parts)"
    using t1 [THEN conjunct2, THEN conjunct2, THEN conjunct2, THEN conjunct1] short by simp
  moreover have "rowStr ?r = [DQ] @ ''c1'' @ [DQ] @ '','' @ [DQ] @ ''Ada'' @ [DQ] @ [NL]"
    by (simp add: rowStr_def objValues_def)
  ultimately show ?thesis
    using full short by simp
qed

lemma pageLoop_first_page_empty:
  assumes "fetch 0 999 = \<lparr>data = Some [], error = None\<rparr>"
  shows "pageLoop fetch pre 0 [] False = Some (Inr [])"
proof -
  have "fetch (0 * pageSize) (0 * pageSize + pageSize - 1) = \<lparr>data = Some [], error = None\<rparr>"
    using assms by (simp add: pageSize_def)
  then show ?thesis
    using pageLoop_step [of fetch 0 "[]" pre "[]" False] by simp
qed

text \<open>
  C8: for a tenant id whose first page is empty, \<open>exportLeads\<close> logs a warning and returns
  \<open>undefined\<close> with every bucket unchanged, while \<open>exportPocLevels\<close> throws. The route
  \<open>GET /export-leads\<close> then creates no artifact, schedules no deletion and sends no
  redirect: destructuring the \<open>undefined\<close> result fails and the handler answers 500.
\<close>

theorem empty_result_leads_noop_poc_throws:
  assumes leads: "store ''Leads'' clientId 0 999 = \<lparr>data = Some [], error = None\<rparr>"
    and poc: "store ''POC-Data'' clientId 0 999 = \<lparr>data = Some [], error = None\<rparr>"
    and cid: "truthy clientId"
  shows "exportLeads store env now clientId w
           = Some (ReturnedUndefined,
                   w\<lparr>console := console w @ [LogWarn (''No data found for client_id: '' @ toStr clientId)]\<rparr>)
     \<and> exportPocLevels store env now clientId w
           = Some (Thrown (''No data found for client_id: '' @ toStr clientId), w)
     \<and> exportLeadsRoute store env now clientId w
           = Some (SendJson 500 (JObj [(''error'', JStr ''Export failed'')]),
                   w\<lparr>console := console w @
                       [LogWarn (''No data found for client_id: '' @ toStr clientId),
                        LogError ''Export failed: TypeError: Cannot destructure property fileName of undefined'']\<rparr>)
     \<and> map_option (leadexports \<circ> snd) (exportLeadsRoute store env now clientId w) = Some (leadexports w)
     \<and> map_option (timers \<circ> snd) (exportLeadsRoute store env now clientId w) = Some (timers w)
     \<and> exportPocLevelsRoute store env now clientId w
           = Some (SendJson 500 (JObj [(''error'', JStr ''POC Level export failed'')]),
                   w\<lparr>console := console w @
                       [LogError (''POC Level export failed: Error: No data found for client_id: ''
                                  @ toStr clientId)]\<rparr>)"
proof -
  have l: "exportLeads store env now clientId w
           = Some (ReturnedUndefined,
                   w\<lparr>console := console w @ [LogWarn (''No data found for client_id: '' @ toStr clientId)]\<rparr>)"
    using pageLoop_first_page_empty [of "store ''Leads'' clientId" "''Error fetching leads: ''"] leads
    by (simp add: exportLeads_def)
  have p: "exportPocLevels store env now clientId w
           = Some (Thrown (''No data found for client_id: '' @ toStr clientId), w)"
    using pageLoop_first_page_empty [of "store ''POC-Data'' clientId" "''Error fetching POC levels: ''"] poc
    by (simp add: exportPocLevels_def)
  have lr: "exportLeadsRoute store env now clientId w
           = Some (SendJson 500 (JObj [(''error'', JStr ''Export failed'')]),
                   w\<lparr>console := console w @
                       [LogWarn (''No data found for client_id: '' @ toStr clientId),
                        LogError ''Export failed: TypeError: Cannot destructure property fileName of undefined'']\<rparr>)"
    using cid by (simp add: exportLeadsRoute_def l routeAnswer_def)
  have pr: "exportPocLevelsRoute store env now clientId w
           = Some (SendJson 500 (JObj [(''error'', JStr ''POC Level export failed'')]),
                   w\<lparr>console := console w @
                       [LogError (''POC Level export failed: Error: No data found for client_id: ''
                                  @ toStr clientId)]\<rparr>)"
    using cid by (simp add: exportPocLevelsRoute_def p routeAnswer_def)
  show ?thesis
    by (simp only: l p pr simp_thms) (simp add: lr)
qed

theorem empty_result_leads_noop_poc_throws_witness:
  "tableStore (\<lambda>t. [[(''client_id'', JStr ''c2''), (''name'', JStr ''Ada'')]]) ''Leads'' (JStr ''c1'') 0 999
     = \<lparr>data = Some [], error = None\<rparr>
   \<and> truthy (JStr ''c1'')
   \<and> exportLeadsRoute (tableStore (\<lambda>t. [[(''client_id'', JStr ''c2''), (''name'', JStr ''Ada'')]]))
        \<lparr>upload_error = None, list_ok = True, remove_fails = (\<lambda>n. False),
          public_base = ''https://cdn/'', stamp = 40, cleanup_files = False\<rparr>
        1700 (JStr ''c1'')
        \<lparr>hatch_exports = [], leadexports = [], poclevelexports = [], console = [], timers = []\<rparr>
     = Some (SendJson 500 (JObj [(''error'', JStr ''Export failed'')]),
             \<lparr>hatch_exports = [], leadexports = [], poclevelexports = [],
               console = [LogWarn ''No data found for client_id: c1'',
                          LogError ''Export failed: TypeError: Cannot destructure property fileName of undefined''],
               timers = []\<rparr>)
   \<and> exportPocLevels (tableStore (\<lambda>t. [[(''client_id'', JStr ''c2''), (''name'', JStr ''Ada'')]]))
        \<lparr>upload_error = None, list_ok = True, remove_fails = (\<lambda>n. False),
          public_base = ''https://cdn/'', stamp = 40, cleanup_files = False\<rparr>
        1700 (JStr ''c1'')
        \<lparr>hatch_exports = [], leadexports = [], poclevelexports = [], console = [], timers = []\<rparr>
     = Some (Thrown ''No data found for client_id: c1'',
             \<lparr>hatch_exports = [], leadexports = [], poclevelexports = [], console = [], timers = []\<rparr>)"
proof -
  let ?store = "tableStore (\<lambda>t. [[(''client_id'', JStr ''c2''), (''name'', JStr ''Ada'')]])"
  have leads: "?store ''Leads'' (JStr ''c1'') 0 999 = \<lparr>data = Some [], error = None\<rparr>"
    and poc: "?store ''POC-Data'' (JStr ''c1'') 0 999 = \<lparr>data = Some [], error = None\<rparr>"
    by (simp_all add: tableStore_def objGet_def)
  have cid: "truthy (JStr ''c1'')" by simp
  note t = empty_result_leads_noop_poc_throws
    [where store = ?store and clientId = "JStr ''c1''", OF leads poc cid]
  from t leads cid show ?thesis by simp
qed

end
